theory Spec2Isabelle
  imports Main "HOL-Library.Word"
begin

section \<open>The synapse client: data model\<close>

text \<open>
  The development follows the Go package \<^verbatim>\<open>synapse\<close>: the per-connection client
  (\<^verbatim>\<open>Client\<close>, \<^verbatim>\<open>waiter\<close>, the reader, \<^verbatim>\<open>Call\<close>, \<^verbatim>\<open>sendCommand\<close>, \<^verbatim>\<open>Close\<close>) and
  the cluster client (\<^verbatim>\<open>DialCluster\<close>, \<^verbatim>\<open>dialAll\<close>, \<^verbatim>\<open>dial\<close>, \<^verbatim>\<open>Status\<close>).
  Go functions become HOL functions on an explicit state; a Go \<^verbatim>\<open>error\<close> is a value
  of type \<open>error option\<close> (\<open>None\<close> is \<^verbatim>\<open>nil\<close>); a call that parks its goroutine has
  the result \<open>None\<close> when it is never woken.
\<close>

type_synonym byte = "8 word"

subsection \<open>Errors\<close>

text \<open>
  The package's error values (\<^verbatim>\<open>ErrClosed\<close>, \<^verbatim>\<open>ErrTimeout\<close>, \<^verbatim>\<open>ErrTooLarge\<close>,
  \<^verbatim>\<open>ErrNoClients\<close>, the three command errors), the structured
  \<^verbatim>\<open>&ResponseError{Code, Expl}\<close>, the two wrappers built with \<^verbatim>\<open>fmt.Errorf\<close>
  (\<^verbatim>\<open>"synapse: fatal error: %s"\<close> and \<^verbatim>\<open>"synapse: ping failed: %s"\<close>), and
  \<open>ExtError\<close> for an error made by code outside the package (the transport, the
  codec, a user's marshaler).
\<close>

datatype error =
    ErrClosed
  | ErrTimeout
  | ErrTooLarge
  | ErrNoClients
  | errNoCmd
  | errInvalidCmd
  | errUnknownCmd
  | ResponseError int string
  | FatalError error
  | PingFailed error
  | ExtError string

subsection \<open>Byte slices\<close>

text \<open>
  A Go \<^verbatim>\<open>[]byte\<close> is a window of length \<open>len\<close> on a backing array; its capacity
  is the length of the backing array. The \<^verbatim>\<open>nil\<close> slice has an empty backing array.
  \<open>bytes\<close> is what a reader of the slice sees; \<open>reslice s n\<close> is \<^verbatim>\<open>s[:n]\<close>
  (legal when \<open>n \<le> cap s\<close>, and it shows again what the backing array held);
  \<open>make_slice n c\<close> is \<^verbatim>\<open>make([]byte, n, c)\<close>.
\<close>

record slice =
  backing :: "byte list"
  len :: nat

definition nil_slice :: slice where
  "nil_slice = \<lparr>backing = [], len = 0\<rparr>"

definition cap :: "slice \<Rightarrow> nat" where
  "cap s = length (backing s)"

definition bytes :: "slice \<Rightarrow> byte list" where
  "bytes s = take (len s) (backing s)"

definition reslice :: "slice \<Rightarrow> nat \<Rightarrow> slice" where
  "reslice s n = s\<lparr>len := n\<rparr>"

definition make_slice :: "nat \<Rightarrow> nat \<Rightarrow> slice" where
  "make_slice n c = \<lparr>backing = replicate c 0, len = n\<rparr>"

text \<open>
  \<open>fill s bs\<close> overwrites the visible part of \<open>s\<close> with the first \<open>len s\<close> bytes
  of \<open>bs\<close> (with all of \<open>bs\<close> when it is shorter), as \<^verbatim>\<open>ReadFull(s)\<close> does with
  the bytes it gets; \<open>store s i b\<close> is
  \<^verbatim>\<open>s[i] = b\<close>; \<open>copy_at s i bs\<close> is \<^verbatim>\<open>copy(s[i:], bs)\<close>, which copies
  \<open>min (len s - i) (length bs)\<close> bytes.
\<close>

definition fill :: "slice \<Rightarrow> byte list \<Rightarrow> slice" where
  "fill s bs =
     (let d = take (len s) bs
      in s\<lparr>backing := d @ drop (length d) (backing s)\<rparr>)"

definition store :: "slice \<Rightarrow> nat \<Rightarrow> byte \<Rightarrow> slice" where
  "store s i b = s\<lparr>backing := (backing s)[i := b]\<rparr>"

definition copy_at :: "slice \<Rightarrow> nat \<Rightarrow> byte list \<Rightarrow> slice" where
  "copy_at s i bs =
     (let n = min (len s - i) (length bs)
      in s\<lparr>backing := take i (backing s) @ take n bs @ drop (i + n) (backing s)\<rparr>)"

subsection \<open>Waiters\<close>

text \<open>
  \<^verbatim>\<open>type waiter struct\<close>. The fields \<^verbatim>\<open>next\<close> (the link of the free list) and
  \<^verbatim>\<open>parent\<close> are kept by the free list and the store below; \<^verbatim>\<open>done\<close>, a
  \<^verbatim>\<open>sema.Point\<close>, is the flag \<open>wdone\<close>: \<^verbatim>\<open>sema.Wake\<close> sets it. The field \<^verbatim>\<open>in\<close>
  is called \<open>inb\<close>.
\<close>

record waiter =
  seq :: "64 word"
  wdone :: bool
  err :: "error option"
  inb :: slice
  reap :: bool
  static :: bool

subsection \<open>The codec\<close>

text \<open>
  \<^verbatim>\<open>github.com/tinylib/msgp/msgp\<close> is an external library. The functions of it that
  the package calls are the fields of a record that the model takes as a parameter, so a
  theorem about the package holds for every behaviour of the library. A Go function with
  results \<^verbatim>\<open>(v, rest, err)\<close> returns the triple.
\<close>

record msgp =
  ReadIntBytes :: "byte list \<Rightarrow> int \<times> byte list \<times> error option"
  ReadStringBytes :: "byte list \<Rightarrow> string \<times> byte list \<times> error option"
  AppendUint32 :: "slice \<Rightarrow> 32 word \<Rightarrow> slice"
  AppendMapHeader :: "slice \<Rightarrow> 32 word \<Rightarrow> slice"

text \<open>
  A \<^verbatim>\<open>msgp.Marshaler\<close> is its method \<^verbatim>\<open>MarshalMsg(b) (o, err)\<close>; a
  \<^verbatim>\<open>msgp.Unmarshaler\<close> is its method \<^verbatim>\<open>UnmarshalMsg(b) (o, err)\<close>, which also
  leaves a decoded value in the receiver: the third component. A \<^verbatim>\<open>nil\<close> interface is
  \<open>None\<close>.
\<close>

type_synonym Marshaler = "slice \<Rightarrow> slice \<times> error option"
type_synonym 'o Unmarshaler = "byte list \<Rightarrow> byte list \<times> error option \<times> 'o"

subsection \<open>A MessagePack codec for evaluation\<close>

text \<open>
  For evaluating the model on concrete bytes, a codec that follows the MessagePack wire
  format: integers are a positive fixint (\<open>0x00\<close> to \<open>0x7f\<close>), a negative fixint
  (\<open>0xe0\<close> to \<open>0xff\<close>), or a tag \<open>0xcc\<close> to \<open>0xcf\<close> (unsigned) or \<open>0xd0\<close> to
  \<open>0xd3\<close> (signed) followed by 1, 2, 4 or 8 big-endian bytes, and an unsigned
  value above \<open>2\<^sup>6\<^sup>3 - 1\<close> does not fit the \<^verbatim>\<open>int\<close> that is read and is an
  error; an unsigned integer is appended in the shortest of these forms; strings are a fixstr
  (\<open>0xa0\<close> to \<open>0xbf\<close>, the length in the low five bits) or a tag \<open>0xd9\<close>,
  \<open>0xda\<close>, \<open>0xdb\<close> followed by a 1, 2 or 4 byte length; the empty map header is
  \<open>0x80\<close>.
\<close>

definition be_nat :: "byte list \<Rightarrow> nat" where
  "be_nat bs = foldl (\<lambda>a b. a * 256 + unat b) 0 bs"

definition be_int :: "byte list \<Rightarrow> int" where
  "be_int bs =
     (let n = int (be_nat bs); w = 8 * length bs
      in if 2 ^ (w - 1) \<le> n then n - 2 ^ w else n)"

definition ErrShortBytes :: error where
  "ErrShortBytes = ExtError ''msgp: too few bytes left to read object''"

definition TypeError :: error where
  "TypeError = ExtError ''msgp: attempted to decode a value of another type''"

definition UintOverflow :: error where
  "UintOverflow = ExtError ''msgp: unsigned value overflows int64''"

definition int_width :: "byte \<Rightarrow> (bool \<times> nat) option" where
  "int_width t =
     (if t = 0xcc then Some (False, 1) else if t = 0xcd then Some (False, 2)
      else if t = 0xce then Some (False, 4) else if t = 0xcf then Some (False, 8)
      else if t = 0xd0 then Some (True, 1) else if t = 0xd1 then Some (True, 2)
      else if t = 0xd2 then Some (True, 4) else if t = 0xd3 then Some (True, 8)
      else None)"

fun mp_ReadIntBytes :: "byte list \<Rightarrow> int \<times> byte list \<times> error option" where
  "mp_ReadIntBytes [] = (0, [], Some ErrShortBytes)"
| "mp_ReadIntBytes (t # bs) =
     (if t \<le> 0x7f then (uint t, bs, None)
      else if 0xe0 \<le> t then (sint t, bs, None)
      else (case int_width t of
              None \<Rightarrow> (0, t # bs, Some TypeError)
            | Some (sg, n) \<Rightarrow>
                if length bs < n then (0, t # bs, Some ErrShortBytes)
                else if sg then (be_int (take n bs), drop n bs, None)
                else if 2 ^ 63 \<le> be_nat (take n bs) then (0, t # bs, Some UintOverflow)
                else (int (be_nat (take n bs)), drop n bs, None)))"

definition str_width :: "byte \<Rightarrow> nat option" where
  "str_width t =
     (if t = 0xd9 then Some 1 else if t = 0xda then Some 2
      else if t = 0xdb then Some 4 else None)"

definition to_string :: "byte list \<Rightarrow> string" where
  "to_string bs = map (\<lambda>b. char_of (unat b)) bs"

fun mp_ReadStringBytes :: "byte list \<Rightarrow> string \<times> byte list \<times> error option" where
  "mp_ReadStringBytes [] = ([], [], Some ErrShortBytes)"
| "mp_ReadStringBytes (t # bs) =
     (if 0xa0 \<le> t \<and> t \<le> 0xbf then
        (let n = unat t - 160
         in if length bs < n then ([], t # bs, Some ErrShortBytes)
            else (to_string (take n bs), drop n bs, None))
      else (case str_width t of
              None \<Rightarrow> ([], t # bs, Some TypeError)
            | Some k \<Rightarrow>
                if length bs < k then ([], t # bs, Some ErrShortBytes)
                else (let n = be_nat (take k bs); r = drop k bs
                      in if length r < n then ([], t # bs, Some ErrShortBytes)
                         else (to_string (take n r), drop n r, None))))"

text \<open>
  Go's built-in \<^verbatim>\<open>append\<close>: in place when the capacity suffices, otherwise on a new
  backing array (the model gives the new array exactly the length needed).
\<close>

definition append_bytes :: "slice \<Rightarrow> byte list \<Rightarrow> slice" where
  "append_bytes s bs =
     (let n = len s + length bs
      in if n \<le> cap s
         then \<lparr>backing = bytes s @ bs @ drop n (backing s), len = n\<rparr>
         else \<lparr>backing = bytes s @ bs, len = n\<rparr>)"

definition be_bytes :: "nat \<Rightarrow> nat \<Rightarrow> byte list" where
  "be_bytes k n = map (\<lambda>i. of_nat (n div 256 ^ i)) (rev [0..<k])"

definition mp_AppendUint32 :: "slice \<Rightarrow> 32 word \<Rightarrow> slice" where
  "mp_AppendUint32 s u =
     (if u \<le> 0x7f then append_bytes s [ucast u]
      else if u \<le> 0xff then append_bytes s (0xcc # be_bytes 1 (unat u))
      else if u \<le> 0xffff then append_bytes s (0xcd # be_bytes 2 (unat u))
      else append_bytes s (0xce # be_bytes 4 (unat u)))"

definition mp_AppendMapHeader :: "slice \<Rightarrow> 32 word \<Rightarrow> slice" where
  "mp_AppendMapHeader s n =
     (if n < 16 then append_bytes s [0x80 + ucast n]
      else if n < 65536 then append_bytes s (0xde # be_bytes 2 (unat n))
      else append_bytes s (0xdf # be_bytes 4 (unat n)))"

definition mp :: msgp where
  "mp = \<lparr>ReadIntBytes = mp_ReadIntBytes, ReadStringBytes = mp_ReadStringBytes,
          AppendUint32 = mp_AppendUint32, AppendMapHeader = mp_AppendMapHeader\<rparr>"

section \<open>Decoding a response: \<^verbatim>\<open>(*waiter).read\<close>\<close>

text \<open>
  \<^verbatim>\<open>StatusOK\<close> is declared outside the files at hand and is a parameter. The result is
  the returned error and, when \<^verbatim>\<open>out.UnmarshalMsg\<close> ran, the value it left in
  \<^verbatim>\<open>out\<close>; \<open>None\<close> in the second place says that \<^verbatim>\<open>out\<close> was not touched.
\<close>

definition read :: "msgp \<Rightarrow> int \<Rightarrow> waiter \<Rightarrow> 'o Unmarshaler option \<Rightarrow> error option \<times> 'o option" where
  "read M StatusOK w out =
     (case ReadIntBytes M (bytes (inb w)) of (code, body, e) \<Rightarrow>
        if e \<noteq> None then (e, None)
        else if code \<noteq> StatusOK then
          (case ReadStringBytes M (bytes (inb w)) of (str, _, e') \<Rightarrow>
             (Some (ResponseError code (if e' \<noteq> None then ''<?>'' else str)), None))
        else (case out of
                None \<Rightarrow> (e, None)
              | Some u \<Rightarrow> (case u body of (_, e', v) \<Rightarrow> (e', Some v))))"


section \<open>The per-connection client\<close>

subsection \<open>Frames and constants declared outside the files at hand\<close>

text \<open>
  \<^verbatim>\<open>type fType byte\<close> with the constants \<^verbatim>\<open>fREQ\<close>, \<^verbatim>\<open>fRES\<close>, \<^verbatim>\<open>fCMD\<close>; a byte
  that is none of them is \<open>fBad\<close>.
\<close>

datatype fType = fREQ | fRES | fCMD | fBad byte

text \<open>
  \<^verbatim>\<open>leadSize\<close>, \<^verbatim>\<open>putFrame\<close> and \<^verbatim>\<open>readFrame\<close> are declared in a file that is not
  at hand and are parameters of the model. \<^verbatim>\<open>putFrame(bts, seq, ft, sz)\<close> writes into the
  slice it is given and returns nothing: here it returns the slice as written.
  \<^verbatim>\<open>make([]byte, leadSize, 256)\<close> compiles only with \<open>leadSize \<le> 256\<close>.
\<close>

record framing =
  leadSize :: nat
  putFrame :: "slice \<Rightarrow> 64 word \<Rightarrow> fType \<Rightarrow> nat \<Rightarrow> slice"
  readFrame :: "byte list \<Rightarrow> 64 word \<times> fType \<times> nat"

text \<open>
  Modelled from the spec: \<^verbatim>\<open>maxMessageSize\<close> is declared outside the files at hand; the
  spec gives the maximum body length as 65,535 bytes, the largest value of the 16-bit
  length field.
\<close>

definition maxMessageSize :: int where
  "maxMessageSize = 65535"

definition waiterHWM :: nat where
  "waiterHWM = 32"

definition clientClosed :: "32 word" where
  "clientClosed = 0"

definition clientOpen :: "32 word" where
  "clientOpen = 1"

subsection \<open>The transport and the client\<close>

text \<open>
  A \<^verbatim>\<open>net.Conn\<close>: its remote address, the bytes the peer sends that are still unread
  (up to the end of the stream), the bytes handed to the transport so far, and whether
  \<^verbatim>\<open>Close\<close> was called on it. \<open>close_result\<close> is what \<^verbatim>\<open>conn.Close()\<close> returns,
  \<open>write_error\<close> the error with which a write on the transport fails (\<open>None\<close> when it
  goes through).
\<close>

record conn =
  rnet :: string
  raddr :: string
  incoming :: "byte list"
  outgoing :: "byte list"
  conn_closed :: bool
  close_result :: "error option"
  write_error :: "error option"

type_synonym wref = nat

text \<open>
  Modelled from the spec: the type \<^verbatim>\<open>wMap\<close> of \<^verbatim>\<open>pending\<close> is declared outside the
  files at hand. The spec describes it as a mapping from sequence number to waiter with
  \<^verbatim>\<open>insert\<close> (store under \<^verbatim>\<open>w.seq\<close>), \<^verbatim>\<open>remove(seq)\<close> (lookup and delete, the waiter
  or none), \<^verbatim>\<open>reap\<close>, \<^verbatim>\<open>flush(err)\<close> and \<^verbatim>\<open>length\<close>. It is an association list of
  sequence number and waiter address, with one entry for a key.
\<close>

type_synonym wMap = "(64 word \<times> wref) list"

definition wMap_insert :: "64 word \<Rightarrow> wref \<Rightarrow> wMap \<Rightarrow> wMap" where
  "wMap_insert k w m = (k, w) # filter (\<lambda>(k', _). k' \<noteq> k) m"

definition wMap_remove :: "64 word \<Rightarrow> wMap \<Rightarrow> wref option \<times> wMap" where
  "wMap_remove k m = (map_of m k, filter (\<lambda>(k', _). k' \<noteq> k) m)"

definition wMap_length :: "wMap \<Rightarrow> nat" where
  "wMap_length m = length m"

text \<open>
  \<^verbatim>\<open>type Client struct\<close>. The channel \<^verbatim>\<open>writing\<close> is the queue of waiters sent and
  not yet received by the writer, and whether it was closed; \<^verbatim>\<open>done\<close> is closed or
  not; the \<^verbatim>\<open>sync.WaitGroup\<close> is its counter. \<open>period\<close> is not a field of the struct:
  it is the argument of the \<^verbatim>\<open>timeoutLoop\<close> goroutine that \<^verbatim>\<open>NewClient\<close> starts for
  the client, a \<^verbatim>\<open>time.Duration\<close>, which counts nanoseconds.
\<close>

type_synonym Duration = int

definition Nanosecond :: Duration where
  "Nanosecond = 1"

definition Millisecond :: Duration where
  "Millisecond = 1000000 * Nanosecond"

record Client =
  svc :: string
  conn :: conn
  csn :: "64 word"
  writing :: "wref list"
  writing_closed :: bool
  done_closed :: bool
  wg :: int
  state :: "32 word"
  pending :: wMap
  period :: Duration

text \<open>
  The state of the process as far as one client sees it: the client, the waiters by
  address (\<^verbatim>\<open>*waiter\<close> is an address, so the caller, the pending map and the writing
  queue share one object), the free list \<^verbatim>\<open>waiters\<close>, the next address not yet
  allocated, and the \<^verbatim>\<open>ErrorLogger\<close> with the lines it has printed (\<open>None\<close> is the
  \<^verbatim>\<open>nil\<close> logger).
\<close>

record sys =
  cl :: Client
  heap :: "wref \<Rightarrow> waiter"
  free :: "wref list"
  fresh :: wref
  ErrorLogger :: "string list option"

definition errorf :: "string \<Rightarrow> sys \<Rightarrow> sys" where
  "errorf msg s =
     (case ErrorLogger s of
        None \<Rightarrow> s
      | Some ls \<Rightarrow> s\<lparr>ErrorLogger := Some (ls @ [msg])\<rparr>)"

definition upd_waiter :: "wref \<Rightarrow> (waiter \<Rightarrow> waiter) \<Rightarrow> sys \<Rightarrow> sys" where
  "upd_waiter w f s = s\<lparr>heap := (heap s)(w := f (heap s w))\<rparr>"

definition upd_client :: "(Client \<Rightarrow> Client) \<Rightarrow> sys \<Rightarrow> sys" where
  "upd_client f s = s\<lparr>cl := f (cl s)\<rparr>"

text \<open>
  A goroutine that parks (on \<^verbatim>\<open>sema.Wait\<close>, on \<^verbatim>\<open>wg.Wait\<close>) resumes when its
  condition holds. \<open>run\<close> is what the other goroutines of the process do in the meantime:
  \<open>run s = Some s'\<close> takes the state to the one in which the parked goroutine is looked
  at again, \<open>None\<close> says that they never get there. The result \<open>None\<close> of \<open>park\<close>,
  and of every function below that parks, says that the call does not return.
\<close>

type_synonym others = "sys \<Rightarrow> sys option"

definition park :: "(sys \<Rightarrow> bool) \<Rightarrow> others \<Rightarrow> sys \<Rightarrow> sys option" where
  "park ready run s =
     (if ready s then Some s
      else (case run s of
              None \<Rightarrow> None
            | Some s' \<Rightarrow> if ready s' then Some s' else None))"

text \<open>
  Modelled from the spec: the package \<^verbatim>\<open>sema\<close> is not at hand. The spec describes
  \<^verbatim>\<open>done\<close> as a single-use completion signal (a binary semaphore): \<^verbatim>\<open>sema.Wake\<close>
  signals it, \<^verbatim>\<open>sema.Wait\<close> parks until it is signalled and takes the signal.
\<close>

definition sema_Wake :: "wref \<Rightarrow> sys \<Rightarrow> sys" where
  "sema_Wake w s = upd_waiter w (\<lambda>x. x\<lparr>wdone := True\<rparr>) s"

definition sema_Wait :: "others \<Rightarrow> wref \<Rightarrow> sys \<Rightarrow> sys option" where
  "sema_Wait run w s =
     (case park (\<lambda>t. wdone (heap t w)) run s of
        None \<Rightarrow> None
      | Some s' \<Rightarrow> Some (upd_waiter w (\<lambda>x. x\<lparr>wdone := False\<rparr>) s'))"

definition wg_Add :: "int \<Rightarrow> sys \<Rightarrow> sys" where
  "wg_Add n s = upd_client (\<lambda>c. c\<lparr>wg := wg c + n\<rparr>) s"

definition wg_Done :: "sys \<Rightarrow> sys" where
  "wg_Done s = wg_Add (- 1) s"

definition wg_Wait :: "others \<Rightarrow> sys \<Rightarrow> sys option" where
  "wg_Wait run s = park (\<lambda>t. wg (cl t) = 0) run s"

text \<open>
  Modelled from the spec: the rest of \<^verbatim>\<open>wMap\<close>. \<^verbatim>\<open>flush(err)\<close> removes every entry
  and signals its waiter with the given error; \<^verbatim>\<open>reap()\<close> removes every entry whose
  waiter has \<^verbatim>\<open>reap\<close> set, sets its error to \<^verbatim>\<open>ErrTimeout\<close> and signals it, and sets
  \<^verbatim>\<open>reap\<close> in the waiters of the other entries.
\<close>

definition pending_flush :: "error \<Rightarrow> sys \<Rightarrow> sys" where
  "pending_flush e s =
     upd_client (\<lambda>c. c\<lparr>pending := []\<rparr>)
       (fold (\<lambda>(_, w) t. sema_Wake w (upd_waiter w (\<lambda>x. x\<lparr>err := Some e\<rparr>) t))
          (pending (cl s)) s)"

definition pending_reap :: "sys \<Rightarrow> sys" where
  "pending_reap s =
     upd_client (\<lambda>c. c\<lparr>pending := filter (\<lambda>(_, w). \<not> reap (heap s w)) (pending c)\<rparr>)
       (fold (\<lambda>(_, w) t.
                if reap (heap s w)
                then sema_Wake w (upd_waiter w (\<lambda>x. x\<lparr>err := Some ErrTimeout\<rparr>) t)
                else upd_waiter w (\<lambda>x. x\<lparr>reap := True\<rparr>) t)
          (pending (cl s)) s)"

subsection \<open>\<^verbatim>\<open>Close\<close> and \<^verbatim>\<open>closeError\<close>\<close>

text \<open>
  \<^verbatim>\<open>atomic.CompareAndSwapUint32(&c.state, clientOpen, clientClosed)\<close>: whether it
  swapped, and the state after it.
\<close>

definition cas_state :: "32 word \<Rightarrow> 32 word \<Rightarrow> sys \<Rightarrow> bool \<times> sys" where
  "cas_state old new s =
     (if state (cl s) = old then (True, upd_client (\<lambda>c. c\<lparr>state := new\<rparr>) s)
      else (False, s))"

definition close_done :: "sys \<Rightarrow> sys" where
  "close_done s = upd_client (\<lambda>c. c\<lparr>done_closed := True\<rparr>) s"

definition close_writing :: "sys \<Rightarrow> sys" where
  "close_writing s = upd_client (\<lambda>c. c\<lparr>writing_closed := True\<rparr>) s"

definition conn_Close :: "sys \<Rightarrow> error option \<times> sys" where
  "conn_Close s =
     (close_result (conn (cl s)),
      upd_client (\<lambda>c. c\<lparr>conn := (conn c)\<lparr>conn_closed := True\<rparr>\<rparr>) s)"

definition Close :: "others \<Rightarrow> sys \<Rightarrow> (error option \<times> sys) option" where
  "Close run s =
     (case cas_state clientOpen clientClosed s of
        (False, s1) \<Rightarrow> Some (Some ErrClosed, s1)
      | (True, s1) \<Rightarrow>
          (case wg_Wait run s1 of
             None \<Rightarrow> None
           | Some s2 \<Rightarrow> Some (conn_Close (close_writing (close_done s2)))))"

function flush_while :: "error \<Rightarrow> sys \<Rightarrow> sys" where
  "flush_while e s =
     (if wMap_length (pending (cl s)) > 0 then flush_while e (pending_flush e s) else s)"
  by pat_completeness auto
termination
  by (relation "measure (\<lambda>(e, s). wMap_length (pending (cl s)))")
     (auto simp: pending_flush_def upd_client_def wMap_length_def)

declare flush_while.simps [simp del]

definition closeError :: "others \<Rightarrow> error \<Rightarrow> sys \<Rightarrow> sys option" where
  "closeError run e s =
     (case cas_state clientOpen clientClosed s of
        (False, s1) \<Rightarrow> Some s1
      | (True, s1) \<Rightarrow>
          (let e' = FatalError e;
               s2 = flush_while e' (pending_flush e' s1)
           in case wg_Wait run s2 of
                None \<Rightarrow> None
              | Some s3 \<Rightarrow> Some (snd (conn_Close (close_writing (close_done s3))))))"

text \<open>\<^verbatim>\<open>(*Client).do\<close>: the handler for the result of a read or a write.\<close>

definition do_io :: "others \<Rightarrow> error option \<Rightarrow> sys \<Rightarrow> (bool \<times> sys) option" where
  "do_io run e s =
     (case e of
        Some x \<Rightarrow> (case closeError run x s of None \<Rightarrow> None | Some s' \<Rightarrow> Some (False, s'))
      | None \<Rightarrow> Some (True, s))"

subsection \<open>The reader: \<^verbatim>\<open>readLoop\<close>\<close>

text \<open>
  The buffered reader on the connection. \<^verbatim>\<open>ReadFull(b)\<close> takes \<open>n\<close> bytes from the
  stream, or takes what is left and fails with \<^verbatim>\<open>io.ErrUnexpectedEOF\<close> when the stream
  ends before that, also when it holds no byte at all; \<^verbatim>\<open>Skip(n)\<close> drops \<open>n\<close> bytes
  or fails in the same way.
\<close>

definition io_ErrUnexpectedEOF :: error where
  "io_ErrUnexpectedEOF = ExtError ''unexpected EOF''"

definition set_incoming :: "byte list \<Rightarrow> sys \<Rightarrow> sys" where
  "set_incoming bs s = upd_client (\<lambda>c. c\<lparr>conn := (conn c)\<lparr>incoming := bs\<rparr>\<rparr>) s"

definition ReadFull :: "nat \<Rightarrow> sys \<Rightarrow> (byte list \<times> error option) \<times> sys" where
  "ReadFull n s =
     (let i = incoming (conn (cl s))
      in if n \<le> length i then ((take n i, None), set_incoming (drop n i) s)
         else ((i, Some io_ErrUnexpectedEOF), set_incoming [] s))"

definition Skip :: "nat \<Rightarrow> sys \<Rightarrow> error option \<times> sys" where
  "Skip n s =
     (let i = incoming (conn (cl s))
      in if n \<le> length i then (None, set_incoming (drop n i) s)
         else (Some io_ErrUnexpectedEOF, set_incoming [] s))"

definition pending_remove :: "64 word \<Rightarrow> sys \<Rightarrow> wref option \<times> sys" where
  "pending_remove k s =
     (case wMap_remove k (pending (cl s)) of
        (r, m) \<Rightarrow> (r, upd_client (\<lambda>c. c\<lparr>pending := m\<rparr>) s))"

definition pending_insert :: "wref \<Rightarrow> sys \<Rightarrow> sys" where
  "pending_insert w s =
     upd_client (\<lambda>c. c\<lparr>pending := wMap_insert (seq (heap s w)) w (pending c)\<rparr>) s"

text \<open>
  One pass through the body of the \<^verbatim>\<open>for\<close> loop of \<^verbatim>\<open>readLoop\<close>. The result
  \<open>(True, s)\<close> is the end of the body or a \<^verbatim>\<open>continue\<close>, \<open>(False, s)\<close> is a
  \<^verbatim>\<open>return\<close>. \<open>skip_body\<close> is the \<^verbatim>\<open>if !c.do(bwr.Skip(sz)) { return }; continue\<close>
  that the two rejecting branches share.
\<close>

definition skip_body :: "others \<Rightarrow> nat \<Rightarrow> sys \<Rightarrow> (bool \<times> sys) option" where
  "skip_body run sz s = (case Skip sz s of (e, s1) \<Rightarrow> do_io run e s1)"

definition bad_frame_msg :: "sys \<Rightarrow> string" where
  "bad_frame_msg s = ''server at addr '' @ raddr (conn (cl s)) @ '' sent a bad frame''"

definition readLoop_body :: "framing \<Rightarrow> others \<Rightarrow> sys \<Rightarrow> (bool \<times> sys) option" where
  "readLoop_body F run s =
     (case ReadFull (leadSize F) s of ((lead, e), s1) \<Rightarrow>
        (case do_io run e s1 of
           None \<Rightarrow> None
         | Some (False, s2) \<Rightarrow> Some (False, s2)
         | Some (True, s2) \<Rightarrow>
             (case readFrame F lead of (sq, frame, sz) \<Rightarrow>
                if frame \<noteq> fCMD \<and> frame \<noteq> fRES
                then skip_body run sz (errorf (bad_frame_msg s2) s2)
                else (case pending_remove sq s2 of
                        (None, s3) \<Rightarrow> skip_body run sz s3
                      | (Some w, s3) \<Rightarrow>
                          (let b = inb (heap s3 w);
                               s4 = upd_waiter w
                                      (\<lambda>x. x\<lparr>inb := (if sz \<le> cap b then reslice b sz
                                                       else make_slice sz sz)\<rparr>) s3
                           in case ReadFull sz s4 of ((body, e'), s5) \<Rightarrow>
                                (case do_io run e'
                                        (upd_waiter w (\<lambda>x. x\<lparr>inb := fill (inb x) body\<rparr>) s5) of
                                   None \<Rightarrow> None
                                 | Some (False, s6) \<Rightarrow> Some (False, s6)
                                 | Some (True, s6) \<Rightarrow>
                                     Some (True,
                                       sema_Wake w (upd_waiter w (\<lambda>x. x\<lparr>err := None\<rparr>) s6))))))))"

partial_function (option) readLoop :: "framing \<Rightarrow> others \<Rightarrow> sys \<Rightarrow> sys option" where
  "readLoop F run s =
     (case readLoop_body F run s of
        None \<Rightarrow> None
      | Some (again, s') \<Rightarrow> if again then readLoop F run s' else Some s')"

subsection \<open>The writer: \<^verbatim>\<open>writeLoop\<close>\<close>

text \<open>
  The buffered writer \<^verbatim>\<open>bwr\<close> on the connection is its buffer, a local of
  \<^verbatim>\<open>writeLoop\<close>: \<^verbatim>\<open>bwr.Write(p)\<close> puts \<open>p\<close> behind the buffered bytes, and
  \<^verbatim>\<open>bwr.Flush()\<close> hands the buffer to the transport or fails with the error of the
  transport. (A write that fills the 4096 bytes of the buffer goes to the transport
  early; the model keeps all bytes until the flush that ends every pass.)
\<close>

definition bwr_Write :: "byte list \<Rightarrow> byte list \<Rightarrow> byte list \<times> error option" where
  "bwr_Write buf p = (buf @ p, None)"

definition bwr_Flush :: "byte list \<Rightarrow> sys \<Rightarrow> (byte list \<times> error option) \<times> sys" where
  "bwr_Flush buf s =
     (case write_error (conn (cl s)) of
        Some e \<Rightarrow> ((buf, Some e), s)
      | None \<Rightarrow>
          (([], None),
           upd_client (\<lambda>c. c\<lparr>conn := (conn c)\<lparr>outgoing := outgoing (conn c) @ buf\<rparr>\<rparr>) s))"

text \<open>
  \<^verbatim>\<open><-c.writing\<close> on a channel that holds an element or is closed: the element, or
  \<open>None\<close> for \<^verbatim>\<open>ok == false\<close>.
\<close>

definition chan_recv :: "sys \<Rightarrow> wref option \<times> sys" where
  "chan_recv s =
     (case writing (cl s) of
        [] \<Rightarrow> (None, s)
      | w # ws \<Rightarrow> (Some w, upd_client (\<lambda>c. c\<lparr>writing := ws\<rparr>) s))"

text \<open>
  The \<^verbatim>\<open>select\<close> at the label \<^verbatim>\<open>more\<close>, with its \<^verbatim>\<open>goto more\<close>: while the channel
  holds waiters their buffers are written; on the closed and empty channel the buffer is
  flushed and \<^verbatim>\<open>writeLoop\<close> returns; on the empty channel (\<^verbatim>\<open>default\<close>) the buffer is
  flushed and the \<^verbatim>\<open>for\<close> loop goes on. The result \<open>(True, s)\<close> says that the loop goes
  on, \<open>(False, s)\<close> that \<^verbatim>\<open>writeLoop\<close> returns.
\<close>

function writeLoop_more :: "others \<Rightarrow> byte list \<Rightarrow> sys \<Rightarrow> (bool \<times> sys) option" where
  "writeLoop_more run buf s =
     (case chan_recv s of
        (None, s1) \<Rightarrow>
          (case bwr_Flush buf s1 of ((_, e), s2) \<Rightarrow>
             if writing_closed (cl s1) then Some (False, s2) else do_io run e s2)
      | (Some another, s1) \<Rightarrow>
          (case bwr_Write buf (bytes (inb (heap s1 another))) of (buf', e) \<Rightarrow>
             if e = None then writeLoop_more run buf' s1
             else (case do_io run e s1 of
                     None \<Rightarrow> None
                   | Some (_, s2) \<Rightarrow> Some (False, s2))))"
  by pat_completeness auto
termination
  by (relation "measure (\<lambda>(run, buf, s). length (writing (cl s)))")
     (auto simp: chan_recv_def upd_client_def split: list.splits)

declare writeLoop_more.simps [simp del]

text \<open>
  One pass through the body of the \<^verbatim>\<open>for\<close> loop of \<^verbatim>\<open>writeLoop\<close>: the writer parks
  on the channel until it holds a waiter or is closed.
\<close>

definition writeLoop_body :: "others \<Rightarrow> sys \<Rightarrow> (bool \<times> sys) option" where
  "writeLoop_body run s =
     (case park (\<lambda>t. writing (cl t) \<noteq> [] \<or> writing_closed (cl t)) run s of
        None \<Rightarrow> None
      | Some s0 \<Rightarrow>
          (case chan_recv s0 of
             (None, s1) \<Rightarrow> Some (False, s1)
           | (Some wt, s1) \<Rightarrow>
               (case bwr_Write [] (bytes (inb (heap s1 wt))) of (buf, e) \<Rightarrow>
                  if e = None then writeLoop_more run buf s1
                  else (case do_io run e s1 of
                          None \<Rightarrow> None
                        | Some (_, s2) \<Rightarrow> Some (False, s2)))))"

partial_function (option) writeLoop :: "others \<Rightarrow> sys \<Rightarrow> sys option" where
  "writeLoop run s =
     (case writeLoop_body run s of
        None \<Rightarrow> None
      | Some (again, s') \<Rightarrow> if again then writeLoop run s' else Some s')"

subsection \<open>The scavenger: \<^verbatim>\<open>timeoutLoop\<close>\<close>

text \<open>
  One pass through the \<^verbatim>\<open>select\<close> of \<^verbatim>\<open>timeoutLoop\<close>: it may take the case of
  \<^verbatim>\<open>done\<close> once that channel is closed, and then the loop returns; it may take a tick,
  reap, and go on. The result is whether the loop goes on, and the state.
\<close>

inductive timeoutLoop_step :: "sys \<Rightarrow> bool \<times> sys \<Rightarrow> bool" where
  on_done: "done_closed (cl s) \<Longrightarrow> timeoutLoop_step s (False, s)"
| on_tick: "timeoutLoop_step s (True, pending_reap s)"

subsection \<open>The write path: \<^verbatim>\<open>writebody\<close>, \<^verbatim>\<open>write\<close>, \<^verbatim>\<open>writeCommand\<close>\<close>

text \<open>
  \<^verbatim>\<open>p.writing <- w\<close> on the channel made by \<^verbatim>\<open>make(chan *waiter, waiterHWM)\<close>. A send
  on a channel that holds \<^verbatim>\<open>waiterHWM\<close> elements parks the sender until the writer has
  received one, or until the channel is closed. A send on a closed channel panics, also
  when the channel is closed while the sender is parked: the call does not return.
\<close>

definition chan_send :: "others \<Rightarrow> wref \<Rightarrow> sys \<Rightarrow> sys option" where
  "chan_send run w s =
     (case park (\<lambda>t. length (writing (cl t)) < waiterHWM \<or> writing_closed (cl t)) run s of
        None \<Rightarrow> None
      | Some t \<Rightarrow>
          if writing_closed (cl t) then None
          else Some (upd_client (\<lambda>c. c\<lparr>writing := writing c @ [w]\<rparr>) t))"

definition writebody :: "others \<Rightarrow> wref \<Rightarrow> 64 word \<Rightarrow> sys \<Rightarrow> sys option" where
  "writebody run w sq s =
     chan_send run w
       (pending_insert w (upd_waiter w (\<lambda>x. x\<lparr>seq := sq, reap := False\<rparr>) s))"

text \<open>\<^verbatim>\<open>atomic.AddUint64(&w.parent.csn, 1)\<close>: the new value, and the state.\<close>

definition next_csn :: "sys \<Rightarrow> 64 word \<times> sys" where
  "next_csn s = (csn (cl s) + 1, upd_client (\<lambda>c. c\<lparr>csn := csn c + 1\<rparr>) s)"

definition set_in :: "wref \<Rightarrow> slice \<Rightarrow> sys \<Rightarrow> sys" where
  "set_in w b s = upd_waiter w (\<lambda>x. x\<lparr>inb := b\<rparr>) s"

text \<open>
  The result of \<^verbatim>\<open>write\<close> (here \<open>waiter_write\<close>, \<open>write\<close> being a keyword) and of
  \<^verbatim>\<open>writeCommand\<close> is the returned error and the state, or \<open>None\<close> when the send
  panics or stays parked. \<^verbatim>\<open>type command uint8\<close>; a \<^verbatim>\<open>Method\<close> is
  converted with \<^verbatim>\<open>uint32(method)\<close>.
\<close>

type_synonym command = byte
type_synonym Method = "32 word"

definition writeCommand :: "framing \<Rightarrow> others \<Rightarrow> wref \<Rightarrow> command \<Rightarrow> byte list \<Rightarrow> sys \<Rightarrow>
    (error option \<times> sys) option" where
  "writeCommand F run w cmd msg s =
     (let s1 = wg_Add 1 s
      in if state (cl s1) = clientClosed then Some (Some ErrClosed, s1)
         else (case next_csn s1 of (seqn, s2) \<Rightarrow>
                 (let cmdlen = length msg + 1
                  in if int cmdlen > maxMessageSize then Some (Some ErrTooLarge, s2)
                     else (let need = leadSize F + cmdlen;
                               b = inb (heap s2 w);
                               b1 = (if need \<le> cap b then reslice b need else make_slice need need);
                               b2 = putFrame F b1 seqn fCMD cmdlen;
                               b3 = store b2 (leadSize F) cmd;
                               b4 = copy_at b3 (leadSize F + 1) msg
                           in (case writebody run w seqn (set_in w b4 s2) of
                                 None \<Rightarrow> None
                               | Some s3 \<Rightarrow> Some (None, s3))))))"

text \<open>
  \<open>encode_request\<close> is the part of \<^verbatim>\<open>write\<close> between the sequence number and the
  size check: it claims \<^verbatim>\<open>leadSize\<close> bytes of the waiter's buffer and appends the
  method and the marshaled body (the empty map for a \<^verbatim>\<open>nil\<close> body). Its result is
  the buffer \<^verbatim>\<open>w.in\<close> and the marshaler's error.
\<close>

definition encode_request :: "msgp \<Rightarrow> framing \<Rightarrow> slice \<Rightarrow> Method \<Rightarrow> Marshaler option \<Rightarrow> slice \<times> error option" where
  "encode_request M F b meth inp =
     (let b1 = (if cap b < leadSize F then make_slice (leadSize F) 256
                else reslice b (leadSize F));
          b2 = AppendUint32 M b1 meth
      in case inp of
           Some m \<Rightarrow> m b2
         | None \<Rightarrow> (AppendMapHeader M b2 0, None))"

definition waiter_write :: "msgp \<Rightarrow> framing \<Rightarrow> others \<Rightarrow> wref \<Rightarrow> Method \<Rightarrow> Marshaler option \<Rightarrow>
    sys \<Rightarrow> (error option \<times> sys) option" where
  "waiter_write M F run w meth inp s =
     (let s1 = wg_Add 1 s
      in if state (cl s1) = clientClosed then Some (Some ErrClosed, s1)
         else (case next_csn s1 of (sn, s2) \<Rightarrow>
                 (case encode_request M F (inb (heap s2 w)) meth inp of (b, e) \<Rightarrow>
                    if e \<noteq> None then Some (e, set_in w b s2)
                    else (let olen = int (len b) - int (leadSize F)
                          in if olen > maxMessageSize then Some (Some ErrTooLarge, set_in w b s2)
                             else (case writebody run w sn
                                          (set_in w (putFrame F b sn fREQ (nat olen)) s2) of
                                     None \<Rightarrow> None
                                   | Some s3 \<Rightarrow> Some (None, s3))))))"

subsection \<open>The free list of waiters\<close>

text \<open>
  Modelled from the spec: the free list \<^verbatim>\<open>waiters\<close> is declared outside the files at
  hand. The spec describes it as a process-wide free list of pre-allocated waiters:
  \<^verbatim>\<open>pop(client)\<close> returns a cleared waiter, from the free list or freshly allocated,
  and \<^verbatim>\<open>push(waiter)\<close> returns a static waiter to the free list and drops the others.
  A cleared waiter has no error, no signal and no reap mark; it keeps its buffer.
\<close>

definition clear_waiter :: "waiter \<Rightarrow> waiter" where
  "clear_waiter x = x\<lparr>seq := 0, wdone := False, err := None, reap := False\<rparr>"

definition new_waiter :: waiter where
  "new_waiter = \<lparr>seq = 0, wdone = False, err = None, inb = nil_slice, reap = False,
                  static = False\<rparr>"

definition waiters_pop :: "sys \<Rightarrow> wref \<times> sys" where
  "waiters_pop s =
     (case free s of
        w # ws \<Rightarrow> (w, upd_waiter w clear_waiter (s\<lparr>free := ws\<rparr>))
      | [] \<Rightarrow> (fresh s, s\<lparr>heap := (heap s)(fresh s := new_waiter), fresh := fresh s + 1\<rparr>))"

definition waiters_push :: "wref \<Rightarrow> sys \<Rightarrow> sys" where
  "waiters_push w s = (if static (heap s w) then s\<lparr>free := w # free s\<rparr> else s)"

subsection \<open>\<^verbatim>\<open>call\<close>, \<^verbatim>\<open>Call\<close> and \<^verbatim>\<open>sendCommand\<close>\<close>

text \<open>
  The result of \<^verbatim>\<open>call\<close> and \<^verbatim>\<open>Call\<close> is the returned error, the value left in
  \<^verbatim>\<open>out\<close> when it was unmarshaled into, and the state; \<open>None\<close> when the call does not
  return.
\<close>

definition call :: "msgp \<Rightarrow> framing \<Rightarrow> int \<Rightarrow> others \<Rightarrow> wref \<Rightarrow> Method \<Rightarrow> Marshaler option \<Rightarrow>
    'o Unmarshaler option \<Rightarrow> sys \<Rightarrow> (error option \<times> 'o option \<times> sys) option" where
  "call M F StatusOK run w meth inp out s =
     (case waiter_write M F run w meth inp s of
        None \<Rightarrow> None
      | Some (Some e, s1) \<Rightarrow> Some (Some e, None, wg_Done s1)
      | Some (None, s1) \<Rightarrow>
          (case sema_Wait run w s1 of
             None \<Rightarrow> None
           | Some s2 \<Rightarrow>
               (let s3 = wg_Done s2
                in if err (heap s3 w) \<noteq> None then Some (err (heap s3 w), None, s3)
                   else (case read M StatusOK (heap s3 w) out of
                           (e, v) \<Rightarrow> Some (e, v, s3)))))"

definition Call :: "msgp \<Rightarrow> framing \<Rightarrow> int \<Rightarrow> others \<Rightarrow> Method \<Rightarrow> Marshaler option \<Rightarrow>
    'o Unmarshaler option \<Rightarrow> sys \<Rightarrow> (error option \<times> 'o option \<times> sys) option" where
  "Call M F StatusOK run meth inp out s =
     (case waiters_pop s of (w, s1) \<Rightarrow>
        (case call M F StatusOK run w meth inp out s1 of
           None \<Rightarrow> None
         | Some (e, v, s2) \<Rightarrow> Some (e, v, waiters_push w s2)))"

text \<open>
  The command table is declared outside the files at hand: \<^verbatim>\<open>cmdInvalid\<close>,
  \<^verbatim>\<open>_maxcommand\<close> and the action \<^verbatim>\<open>cmdDirectory[ret].done(c, body)\<close> are parameters,
  as are the codes \<^verbatim>\<open>cmdPing\<close> and \<^verbatim>\<open>cmdListLinks\<close> and the bytes
  \<^verbatim>\<open>svclistbytes()\<close>.
\<close>

record commands =
  cmdInvalid :: command
  maxcommand :: command
  cmdPing :: command
  cmdListLinks :: command
  cmd_done :: "command \<Rightarrow> byte list \<Rightarrow> sys \<Rightarrow> sys"
  svclistbytes :: "byte list"

definition sendCommand :: "framing \<Rightarrow> commands \<Rightarrow> others \<Rightarrow> command \<Rightarrow> byte list \<Rightarrow> sys \<Rightarrow>
    (error option \<times> sys) option" where
  "sendCommand F K run cmd msg s =
     (case waiters_pop s of (w, s0) \<Rightarrow>
        (case writeCommand F run w cmd msg s0 of
           None \<Rightarrow> None
         | Some (Some e, s1) \<Rightarrow> Some (Some e, wg_Done s1)
         | Some (None, s1) \<Rightarrow>
             (case sema_Wait run w s1 of
                None \<Rightarrow> None
              | Some s2 \<Rightarrow>
                  (let s3 = wg_Done s2
                   in if err (heap s3 w) \<noteq> None then Some (err (heap s3 w), s3)
                      else if len (inb (heap s3 w)) = 0 then Some (Some errNoCmd, waiters_push w s3)
                      else (let ret = hd (bytes (inb (heap s3 w)))
                            in if ret = cmdInvalid K \<or> maxcommand K \<le> ret
                               then Some (Some errUnknownCmd, waiters_push w s3)
                               else Some (None,
                                      waiters_push w
                                        (cmd_done K ret (tl (bytes (inb (heap s3 w)))) s3)))))))"

definition ping :: "framing \<Rightarrow> commands \<Rightarrow> others \<Rightarrow> sys \<Rightarrow> (error option \<times> sys) option" where
  "ping F K run s = sendCommand F K run (cmdPing K) [] s"

definition syncLinks :: "framing \<Rightarrow> commands \<Rightarrow> others \<Rightarrow> sys \<Rightarrow> sys option" where
  "syncLinks F K run s =
     (case sendCommand F K run (cmdListLinks K) (svclistbytes K) s of
        None \<Rightarrow> None
      | Some (Some e, s1) \<Rightarrow> Some (errorf ''error synchronizing links'' s1)
      | Some (None, s1) \<Rightarrow> Some s1)"

section \<open>Histories of one client\<close>

text \<open>No other goroutine ever signals: whoever parks stays parked.\<close>

definition nobody :: others where
  "nobody s = None"

text \<open>
  The operations on one client, in the order in which they take effect: an invocation of
  \<^verbatim>\<open>write\<close> or of \<^verbatim>\<open>writeCommand\<close>, the resumption of a caller that has parked on its
  waiter after such an invocation (\<^verbatim>\<open>sema.Wait(&w.done)\<close> returns and the caller calls
  \<^verbatim>\<open>wg.Done()\<close>), a pass of the reader, a pass of the writer, a tick of the timeout scavenger
  (\<^verbatim>\<open>timeoutLoop\<close> calls \<^verbatim>\<open>c.pending.reap()\<close> on every tick), a \<^verbatim>\<open>Close\<close>. \<open>issued\<close> lists the sequence numbers that the invocations of a history
  obtain from \<^verbatim>\<open>atomic.AddUint64(&w.parent.csn, 1)\<close>: an invocation reaches that line
  when it finds the client open. A history ends where an operation does not return; the
  operations that can park here are a send on the full channel \<^verbatim>\<open>writing\<close>, which has
  obtained its number by then, and \<^verbatim>\<open>Close\<close> and \<^verbatim>\<open>closeError\<close>, on
  \<^verbatim>\<open>wg.Wait()\<close>, which have closed the client by then.
\<close>

datatype event =
    EvWrite wref Method "Marshaler option"
  | EvCommand wref command "byte list"
  | EvResume wref
  | EvReader
  | EvWriter
  | EvTick
  | EvClose

definition timeoutLoop_tick :: "sys \<Rightarrow> sys" where
  "timeoutLoop_tick s = pending_reap s"

fun perform :: "msgp \<Rightarrow> framing \<Rightarrow> event \<Rightarrow> sys \<Rightarrow> sys option" where
  "perform M F (EvWrite w meth inp) s = map_option snd (waiter_write M F nobody w meth inp s)"
| "perform M F (EvCommand w cmd msg) s = map_option snd (writeCommand F nobody w cmd msg s)"
| "perform M F (EvResume w) s = map_option wg_Done (sema_Wait nobody w s)"
| "perform M F EvReader s = map_option snd (readLoop_body F nobody s)"
| "perform M F EvWriter s = map_option snd (writeLoop_body nobody s)"
| "perform M F EvTick s = Some (timeoutLoop_tick s)"
| "perform M F EvClose s = map_option snd (Close nobody s)"

fun history :: "msgp \<Rightarrow> framing \<Rightarrow> event list \<Rightarrow> others" where
  "history M F [] s = Some s"
| "history M F (ev # evs) s =
     (case perform M F ev s of
        None \<Rightarrow> None
      | Some s' \<Rightarrow> history M F evs s')"



section \<open>Instances for evaluation\<close>

text \<open>
  A framing after the wire frame of the spec, \<^verbatim>\<open>seq:u64 be || kind:u8 || length:u16 be\<close>
  in a lead of 12 bytes (the last byte is padding and is left as it is). The kind bytes
  1, 2, 3 for REQ, RES, CMD are the choice of this instance.
\<close>

definition kind_byte :: "fType \<Rightarrow> byte" where
  "kind_byte k = (case k of fREQ \<Rightarrow> 1 | fRES \<Rightarrow> 2 | fCMD \<Rightarrow> 3 | fBad b \<Rightarrow> b)"

definition byte_kind :: "byte \<Rightarrow> fType" where
  "byte_kind b = (if b = 1 then fREQ else if b = 2 then fRES else if b = 3 then fCMD else fBad b)"

definition wire_putFrame :: "slice \<Rightarrow> 64 word \<Rightarrow> fType \<Rightarrow> nat \<Rightarrow> slice" where
  "wire_putFrame b sq k sz =
     b\<lparr>backing := be_bytes 8 (unat sq) @ [kind_byte k] @ be_bytes 2 sz @ drop 11 (backing b)\<rparr>"

definition wire_readFrame :: "byte list \<Rightarrow> 64 word \<times> fType \<times> nat" where
  "wire_readFrame lead =
     (of_nat (be_nat (take 8 lead)), byte_kind (lead ! 8), be_nat (take 2 (drop 9 lead)))"

definition wire :: framing where
  "wire = \<lparr>leadSize = 12, putFrame = wire_putFrame, readFrame = wire_readFrame\<rparr>"

definition cmds :: commands where
  "cmds = \<lparr>cmdInvalid = 0, maxcommand = 3, cmdPing = 1, cmdListLinks = 2,
            cmd_done = (\<lambda>_ _ s. s), svclistbytes = []\<rparr>"

text \<open>
  A client as \<^verbatim>\<open>NewClient\<close> makes it (open, nothing pending, counter 0) on a
  connection with the given unread bytes, in a process with the two static waiters 0 and
  1 on the free list and a logger.
\<close>

definition conn0 :: "byte list \<Rightarrow> conn" where
  "conn0 bs = \<lparr>rnet = ''tcp'', raddr = ''10.0.0.1:7000'', incoming = bs, outgoing = [],
                conn_closed = False, close_result = None, write_error = None\<rparr>"

definition client0 :: "byte list \<Rightarrow> Client" where
  "client0 bs = \<lparr>svc = [], conn = conn0 bs, csn = 0, writing = [], writing_closed = False,
                  done_closed = False, wg = 0, state = clientOpen, pending = [],
                  period = 1000\<rparr>"

definition sys0 :: "byte list \<Rightarrow> sys" where
  "sys0 bs = \<lparr>cl = client0 bs, heap = (\<lambda>_. new_waiter\<lparr>static := True\<rparr>), free = [0, 1],
               fresh = 2, ErrorLogger = Some []\<rparr>"

text \<open>The same process with the \<^verbatim>\<open>nil\<close> logger, the default.\<close>

definition quiet_sys0 :: "byte list \<Rightarrow> sys" where
  "quiet_sys0 bs = (sys0 bs)\<lparr>ErrorLogger := None\<rparr>"

text \<open>
  The process after a caller has popped waiter 0 and written a ping with it: the waiter
  is pending under sequence number 1 and queued for the writer.
\<close>

definition pinging_sys0 :: "byte list \<Rightarrow> sys" where
  "pinging_sys0 bs =
     (case writeCommand wire nobody 0 (cmdPing cmds) [] (snd (waiters_pop (sys0 bs))) of
        Some (_, s) \<Rightarrow> s
      | None \<Rightarrow> sys0 bs)"

text \<open>The same process after the client was closed.\<close>

definition closed_sys0 :: "byte list \<Rightarrow> sys" where
  "closed_sys0 bs = (sys0 bs)\<lparr>cl := (client0 bs)\<lparr>state := clientClosed\<rparr>\<rparr>"

text \<open>The same process when the counter of the client has reached \<open>2\<^sup>6\<^sup>4 - 2\<close>.\<close>

definition late_sys0 :: "byte list \<Rightarrow> sys" where
  "late_sys0 bs = (sys0 bs)\<lparr>cl := (client0 bs)\<lparr>csn := 0xFFFFFFFFFFFFFFFE\<rparr>\<rparr>"

text \<open>A marshaler that appends the given bytes, and one that fails.\<close>

definition marshal_bytes :: "byte list \<Rightarrow> Marshaler" where
  "marshal_bytes bs b = (append_bytes b bs, None)"

definition marshal_fails :: Marshaler where
  "marshal_fails b = (b, Some (ExtError ''cannot marshal''))"

section \<open>The cluster client\<close>

text \<open>
  \<^verbatim>\<open>type ClusterClient struct\<close> and \<^verbatim>\<open>type ClusterStatus struct\<close>. The two locks
  order the goroutines and hold no data. The state of a cluster is 2 while it is active
  and 0 after \<^verbatim>\<open>Close\<close>; \<open>cdone\<close> says whether the channel \<^verbatim>\<open>done\<close> was closed.
\<close>

record ClusterClient =
  idx :: "64 word"
  cstate :: "32 word"
  clients :: "Client list"
  nwk :: string
  remotes :: "string list"
  cdone :: bool

record ClusterStatus =
  Network :: string
  Connected :: "string list"
  Disconnected :: "string list"

text \<open>
  What the cluster gets from outside: \<^verbatim>\<open>net.Dial(network, addr)\<close>, and the result of
  the handshake \<^verbatim>\<open>cl.ping()\<close> that \<^verbatim>\<open>NewClient\<close> makes on a connection, which
  depends on the peer.
\<close>

record network =
  net_Dial :: "string \<Rightarrow> string \<Rightarrow> error + conn"
  ping_result :: "conn \<Rightarrow> error option"

text \<open>
  \<^verbatim>\<open>NewClient(c, timeout)\<close> makes the client, starts \<^verbatim>\<open>readLoop\<close>, \<^verbatim>\<open>writeLoop\<close> and
  \<^verbatim>\<open>timeoutLoop(timeout)\<close> for it, and pings; when the ping fails it closes the client
  and returns the error \<^verbatim>\<open>"synapse: ping failed: ..."\<close>. The client is given as
  \<^verbatim>\<open>NewClient\<close> made it: what the handshake did to its counters plays no part at the
  level of the cluster.
\<close>

definition NewClient :: "network \<Rightarrow> conn \<Rightarrow> Duration \<Rightarrow> error + Client" where
  "NewClient N c timeout =
     (let n = \<lparr>svc = [], conn = c, csn = 0, writing = [], writing_closed = False,
                done_closed = False, wg = 0, state = clientOpen, pending = [],
                period = timeout\<rparr>
      in case ping_result N c of
           Some e \<Rightarrow> Inl (PingFailed e)
         | None \<Rightarrow> Inr n)"

text \<open>
  Modelled from the spec: \<^verbatim>\<open>handleDialError\<close> is declared outside the files at hand.
  The spec has \<^verbatim>\<open>dialAll\<close> track the error of each address and gives a failed dial no
  other effect on the cluster.
\<close>

definition handleDialError :: "string \<Rightarrow> error \<Rightarrow> ClusterClient \<Rightarrow> ClusterClient" where
  "handleDialError addr e c = c"

text \<open>
  The body of the goroutine that \<^verbatim>\<open>dialAll\<close> starts for the address at index \<open>i\<close>,
  on the cluster and the slice \<^verbatim>\<open>errs\<close>. The logging through the standard logger is
  left out.
\<close>

definition dial_one :: "network \<Rightarrow> nat \<times> string \<Rightarrow> ClusterClient \<times> error option list \<Rightarrow>
    ClusterClient \<times> error option list" where
  "dial_one N ia ce =
     (case (ia, ce) of ((i, addr), (c, errs)) \<Rightarrow>
        (case net_Dial N (nwk c) addr of
           Inl e \<Rightarrow> (handleDialError addr e c, errs[i := Some e])
         | Inr cn \<Rightarrow>
             (let c1 = c\<lparr>remotes := (remotes c)[i := raddr cn]\<rparr>
              in case NewClient N cn 1000 of
                   Inl e \<Rightarrow> (c1, errs[i := Some e])
                 | Inr n \<Rightarrow> (c1\<lparr>clients := clients c1 @ [n]\<rparr>, errs))))"

text \<open>
  The loop over \<^verbatim>\<open>errs\<close> at the end of \<^verbatim>\<open>dialAll\<close>: the values of \<^verbatim>\<open>any\<close> and
  \<^verbatim>\<open>first\<close> after it.
\<close>

definition scan_errs :: "error option list \<Rightarrow> bool \<times> int" where
  "scan_errs errs =
     fold (\<lambda>(i, e) (any, first).
             if e = None \<and> \<not> any then (True, first)
             else if first = - 1 \<and> e \<noteq> None then (any, int i)
             else (any, first))
       (zip [0..<length errs] errs) (False, - 1)"

text \<open>
  \<^verbatim>\<open>dialAll\<close>. The goroutines run in parallel, each on its own index of \<^verbatim>\<open>remotes\<close>
  and \<^verbatim>\<open>errs\<close>, and append to \<^verbatim>\<open>clients\<close> under a lock; the model runs them one
  after the other in the order of the indices, which is one of their schedules (another
  schedule gives the same \<^verbatim>\<open>remotes\<close> and \<^verbatim>\<open>errs\<close> and the same clients in another
  order). The result \<open>None\<close> is the panic of \<^verbatim>\<open>errs[first]\<close> with \<open>first = -1\<close>.
\<close>

definition dialAll :: "network \<Rightarrow> ClusterClient \<Rightarrow> (error option \<times> ClusterClient) option" where
  "dialAll N c =
     (if length (clients c) > 0 then Some (None, c)
      else if length (remotes c) = 0 then Some (Some ErrNoClients, c)
      else (case fold (dial_one N) (zip [0..<length (remotes c)] (remotes c))
                   (c, replicate (length (remotes c)) None) of
              (c', errs) \<Rightarrow>
                (case scan_errs errs of
                   (any, first) \<Rightarrow>
                     if \<not> any
                     then (if 0 \<le> first \<and> nat first < length errs
                           then Some (errs ! nat first, c') else None)
                     else Some (None, c'))))"

text \<open>
  \<^verbatim>\<open>(*ClusterClient).Close\<close>: the clients are closed, each in a goroutine of its own,
  and the list is emptied.
\<close>

definition cluster_Close :: "ClusterClient \<Rightarrow> error option \<times> ClusterClient" where
  "cluster_Close c =
     (if cstate c \<noteq> 2 then (Some ErrClosed, c)
      else (None, c\<lparr>cstate := 0, cdone := True, clients := []\<rparr>))"

definition DialCluster :: "network \<Rightarrow> string \<Rightarrow> string list \<Rightarrow> (error + ClusterClient) option" where
  "DialCluster N nw addrs =
     (if length addrs < 1 then Some (Inl ErrNoClients)
      else (let c = \<lparr>idx = 0, cstate = 2, clients = [], nwk = nw, remotes = addrs,
                      cdone = False\<rparr>
            in case dialAll N c of
                 None \<Rightarrow> None
               | Some (Some e, c') \<Rightarrow> (case cluster_Close c' of (_, _) \<Rightarrow> Some (Inl e))
               | Some (None, c') \<Rightarrow> Some (Inr c')))"

text \<open>\<^verbatim>\<open>(*ClusterClient).add\<close>, \<^verbatim>\<open>dial\<close> and \<^verbatim>\<open>Add\<close>.\<close>

definition cluster_add :: "Client \<Rightarrow> ClusterClient \<Rightarrow> ClusterClient" where
  "cluster_add n c = c\<lparr>clients := clients c @ [n]\<rparr>"

definition dial :: "network \<Rightarrow> string \<Rightarrow> string \<Rightarrow> bool \<Rightarrow> ClusterClient \<Rightarrow> error option \<times> ClusterClient" where
  "dial N inet addr exists c =
     (case net_Dial N inet addr of
        Inl e \<Rightarrow> (Some e, c)
      | Inr cn \<Rightarrow>
          (let c1 = (if \<not> exists
                     then (if list_ex (\<lambda>rem. rem = raddr cn) (remotes c) then c
                           else c\<lparr>remotes := remotes c @ [raddr cn]\<rparr>)
                     else c)
           in case NewClient N cn 1000 of
                Inl e \<Rightarrow> (Some e, c1)
              | Inr n \<Rightarrow> (None, cluster_add n c1)))"

definition Add :: "network \<Rightarrow> string \<Rightarrow> ClusterClient \<Rightarrow> error option \<times> ClusterClient" where
  "Add N addr c =
     (if cstate c \<noteq> 2 then (Some ErrClosed, c) else dial N (nwk c) addr False c)"

text \<open>\<^verbatim>\<open>(*ClusterClient).Status\<close>.\<close>

definition Status :: "ClusterClient \<Rightarrow> ClusterStatus" where
  "Status c =
     (let connected = map (\<lambda>n. raddr (conn n)) (clients c)
      in \<lparr>Network = nwk c,
          Connected = connected,
          Disconnected = filter (\<lambda>rem. \<not> list_ex (\<lambda>cn. rem = cn) connected) (remotes c)\<rparr>)"

text \<open>
  What one address comes to, in \<^verbatim>\<open>dialAll\<close> and in \<^verbatim>\<open>dial\<close> alike: the error of
  \<^verbatim>\<open>net.Dial\<close>, or the error of the handshake in \<^verbatim>\<open>NewClient\<close>, or the client of an
  established connection.
\<close>

definition establish :: "network \<Rightarrow> string \<Rightarrow> string \<Rightarrow> error + Client" where
  "establish N nw addr =
     (case net_Dial N nw addr of
        Inl e \<Rightarrow> Inl e
      | Inr cn \<Rightarrow> NewClient N cn 1000)"

definition failure :: "error + Client \<Rightarrow> error option" where
  "failure r = (case r of Inl e \<Rightarrow> Some e | Inr _ \<Rightarrow> None)"

definition established :: "network \<Rightarrow> string \<Rightarrow> string list \<Rightarrow> Client list" where
  "established N nw addrs =
     concat (map (\<lambda>a. case establish N nw a of Inl _ \<Rightarrow> [] | Inr n \<Rightarrow> [n]) addrs)"

text \<open>
  Networks for evaluation: on \<open>net_up\<close> every address answers, under its own name, and
  shakes hands; on \<open>net_down\<close> no address answers; on \<open>net_b_only\<close> the address \<open>b\<close>
  alone answers.
\<close>

definition conn_to :: "string \<Rightarrow> string \<Rightarrow> conn" where
  "conn_to nw addr = \<lparr>rnet = nw, raddr = addr, incoming = [], outgoing = [],
                       conn_closed = False, close_result = None, write_error = None\<rparr>"

definition refused :: "string \<Rightarrow> error" where
  "refused addr = ExtError (''dial '' @ addr @ '': connection refused'')"

definition net_up :: network where
  "net_up = \<lparr>net_Dial = (\<lambda>nw addr. Inr (conn_to nw addr)), ping_result = (\<lambda>_. None)\<rparr>"

definition net_down :: network where
  "net_down = \<lparr>net_Dial = (\<lambda>nw addr. Inl (refused addr)), ping_result = (\<lambda>_. None)\<rparr>"

definition net_b_only :: network where
  "net_b_only = \<lparr>net_Dial = (\<lambda>nw addr. if addr = ''b'' then Inr (conn_to nw addr)
                                          else Inl (refused addr)),
                  ping_result = (\<lambda>_. None)\<rparr>"

text \<open>
  The client that \<^verbatim>\<open>NewClient\<close> makes for the cluster on a connection to \<open>addr\<close>, and
  the cluster that \<^verbatim>\<open>DialCluster\<close> makes of the one address \<open>a\<close> on \<open>net_up\<close>.
\<close>

definition client_to :: "string \<Rightarrow> string \<Rightarrow> Client" where
  "client_to nw addr =
     \<lparr>svc = [], conn = conn_to nw addr, csn = 0, writing = [], writing_closed = False,
      done_closed = False, wg = 0, state = clientOpen, pending = [], period = 1000\<rparr>"

definition cluster_a :: ClusterClient where
  "cluster_a = \<lparr>idx = 0, cstate = 2, clients = [client_to ''tcp'' ''a''], nwk = ''tcp'',
                 remotes = [''a''], cdone = False\<rparr>"

text \<open>
  The cluster that \<^verbatim>\<open>DialCluster\<close> makes of the addresses \<open>a\<close>, \<open>b\<close>, \<open>c\<close> on
  \<open>net_b_only\<close>.
\<close>

definition cluster_abc :: ClusterClient where
  "cluster_abc = \<lparr>idx = 0, cstate = 2, clients = [client_to ''tcp'' ''b''], nwk = ''tcp'',
                   remotes = [''a'', ''b'', ''c''], cdone = False\<rparr>"

section \<open>What a rejected call leaves behind\<close>

text \<open>
  \<open>nothing_sent s s'\<close>: from \<open>s\<close> to \<open>s'\<close> no waiter was inserted into the pending
  map, nothing was enqueued on the writing channel and nothing was written to the
  transport.
\<close>

definition nothing_sent :: "sys \<Rightarrow> sys \<Rightarrow> bool" where
  "nothing_sent s s' \<longleftrightarrow>
     pending (cl s') = pending (cl s) \<and> writing (cl s') = writing (cl s) \<and>
     outgoing (conn (cl s')) = outgoing (conn (cl s))"


section \<open>Properties of the response decoder\<close>

lemma read_ok_unmarshals:
  assumes "ReadIntBytes M (bytes (inb w)) = (StatusOK, body, None)"
  shows "read M StatusOK w (Some u) = (fst (snd (u body)), Some (snd (snd (u body))))"
  using assms by (simp add: read_def split: prod.splits)

lemma read_error_leaves_out:
  assumes "ReadIntBytes M (bytes (inb w)) = (code, body, e)" and "e \<noteq> None \<or> code \<noteq> StatusOK"
  shows "snd (read M StatusOK w out) = None"
  using assms by (auto simp: read_def split: prod.splits)

lemma read_explanation_source:
  assumes "ReadIntBytes M (bytes (inb w)) = (code, body, None)" and "code \<noteq> StatusOK"
  shows "read M StatusOK w out =
           (Some (ResponseError code
              (case ReadStringBytes M (bytes (inb w)) of (str, _, e') \<Rightarrow>
                 if e' \<noteq> None then ''<?>'' else str)), None)"
  using assms by (simp add: read_def split: prod.splits)

lemma mp_int_tag_no_string:
  assumes "snd (snd (mp_ReadIntBytes bs)) = None"
  shows "snd (snd (mp_ReadStringBytes bs)) \<noteq> None"
proof (cases bs)
  case Nil
  then show ?thesis by simp
next
  case (Cons t r)
  consider "t \<le> 0x7f" | "0xe0 \<le> t" | "\<not> t \<le> 0x7f" "\<not> 0xe0 \<le> t" by blast
  then show ?thesis
  proof cases
    case 1
    then have "unat t \<le> 127" by (simp add: word_le_nat_alt)
    then have a: "\<not> 0xa0 \<le> t" and b: "str_width t = None"
      by (auto simp: word_le_nat_alt str_width_def)
    show ?thesis using Cons a b by simp
  next
    case 2
    then have "224 \<le> unat t" by (simp add: word_le_nat_alt)
    then have a: "\<not> t \<le> 0xbf" and b: "str_width t = None"
      by (auto simp: word_le_nat_alt str_width_def)
    show ?thesis using Cons a b by simp
  next
    case 3
    with assms Cons obtain sg n where w: "int_width t = Some (sg, n)"
      by (cases "int_width t") auto
    then have "t \<in> {0xcc, 0xcd, 0xce, 0xcf, 0xd0, 0xd1, 0xd2, 0xd3}"
      by (auto simp: int_width_def split: if_splits)
    then have a: "\<not> t \<le> 0xbf" and b: "str_width t = None"
      by (auto simp: str_width_def)
    show ?thesis using Cons a b by simp
  qed
qed

lemma read_mp_explanation_always_lost:
  assumes "mp_ReadIntBytes (bytes (inb w)) = (code, body, None)" and "code \<noteq> StatusOK"
  shows "read mp StatusOK w out = (Some (ResponseError code ''<?>''), None)"
proof -
  have "snd (snd (mp_ReadIntBytes (bytes (inb w)))) = None" using assms(1) by simp
  then have "snd (snd (mp_ReadStringBytes (bytes (inb w)))) \<noteq> None"
    by (rule mp_int_tag_no_string)
  then show ?thesis using assms
    by (auto simp: read_def mp_def split: prod.splits)
qed

text \<open>
  C1. The response body is a status followed by a payload; with status OK the payload is
  unmarshaled into \<^verbatim>\<open>out\<close>, otherwise the explanation string that follows the status is
  returned in a \<^verbatim>\<open>ResponseError\<close>. The code decodes the explanation from the start of
  the body (\<^verbatim>\<open>w.in\<close>), where the status is, and not from the payload that
  \<^verbatim>\<open>ReadIntBytes\<close> left over: for the body \<open>02 a3 62 61 64\<close> (status 2, then the
  string \<open>bad\<close>) and \<^verbatim>\<open>StatusOK\<close> 1 the caller gets the explanation \<open><?>\<close>, while
  the payload that follows the status decodes to \<open>bad\<close>.
\<close>

theorem read_explanation_from_body_start:
  "read mp 1 \<lparr>seq = 7, wdone = True, err = None,
              inb = \<lparr>backing = [0x02, 0xa3, 0x62, 0x61, 0x64], len = 5\<rparr>,
              reap = False, static = True\<rparr> (None :: unit Unmarshaler option)
     = (Some (ResponseError 2 ''<?>''), None)
   \<and> mp_ReadIntBytes [0x02, 0xa3, 0x62, 0x61, 0x64] = (2, [0xa3, 0x62, 0x61, 0x64], None)
   \<and> mp_ReadStringBytes [0xa3, 0x62, 0x61, 0x64] = (''bad'', [], None)"
proof -
  have "char_of (98::nat) = CHR ''b''" "char_of (97::nat) = CHR ''a''" "char_of (100::nat) = CHR ''d''"
    by code_simp+
  then show ?thesis
    by (simp add: read_def mp_def bytes_def int_width_def str_width_def TypeError_def
        to_string_def)
qed

section \<open>The write path\<close>

lemmas state_defs = upd_client_def upd_waiter_def wg_Add_def wg_Done_def next_csn_def set_in_def

lemma waiter_write_closed:
  "state (cl s) = clientClosed \<Longrightarrow>
   waiter_write M F run w meth inp s = Some (Some ErrClosed, wg_Add 1 s)"
  by (simp add: waiter_write_def state_defs)

lemma writeCommand_closed:
  "state (cl s) = clientClosed \<Longrightarrow>
   writeCommand F run w cmd msg s = Some (Some ErrClosed, wg_Add 1 s)"
  by (simp add: writeCommand_def state_defs)

lemma waiter_write_too_large:
  assumes "state (cl s) \<noteq> clientClosed"
    and "encode_request M F (inb (heap s w)) meth inp = (b, None)"
    and "65535 < int (len b) - int (leadSize F)"
  shows "waiter_write M F run w meth inp s =
           Some (Some ErrTooLarge, set_in w b (snd (next_csn (wg_Add 1 s))))"
  using assms by (simp add: waiter_write_def state_defs maxMessageSize_def)

lemma waiter_write_marshal_error:
  assumes "state (cl s) \<noteq> clientClosed"
    and "encode_request M F (inb (heap s w)) meth inp = (b, Some e)"
  shows "waiter_write M F run w meth inp s =
           Some (Some e, set_in w b (snd (next_csn (wg_Add 1 s))))"
  using assms by (simp add: waiter_write_def state_defs)

lemma writeCommand_too_large:
  assumes "state (cl s) \<noteq> clientClosed" and "65535 < int (length msg) + 1"
  shows "writeCommand F run w cmd msg s = Some (Some ErrTooLarge, snd (next_csn (wg_Add 1 s)))"
  using assms by (simp add: writeCommand_def state_defs maxMessageSize_def)

lemma waiters_pop_cl: "waiters_pop s = (w, s0) \<Longrightarrow> cl s0 = cl s"
  by (auto simp: waiters_pop_def state_defs split: list.splits)

lemma waiters_push_cl: "cl (waiters_push w s) = cl s"
  by (simp add: waiters_push_def)

lemma pop_sys0:
  "waiters_pop (sys0 bs) = (0, upd_waiter 0 clear_waiter ((sys0 bs)\<lparr>free := [1]\<rparr>))"
  by (simp add: waiters_pop_def sys0_def)

lemma inb_popped:
  "inb (heap (upd_waiter 0 clear_waiter ((sys0 bs)\<lparr>free := [1]\<rparr>)) 0) = nil_slice"
  by (simp add: upd_waiter_def sys0_def clear_waiter_def new_waiter_def)

lemma sys0_open: "state (cl (sys0 bs)) \<noteq> clientClosed"
  by (simp add: sys0_def client0_def clientOpen_def clientClosed_def)

text \<open>
  C2, as the code has it. On a client that is open, a \<^verbatim>\<open>Call\<close> whose request marshals
  without error into more than 65,535 bytes after the lead, and a command whose code byte
  and message are more than 65,535 bytes, return \<^verbatim>\<open>ErrTooLarge\<close> without parking
  (whatever the other goroutines do), and no waiter was inserted into the pending map,
  nothing was enqueued on the writing channel and nothing was written to the transport.
\<close>

theorem too_large_rejected_before_framing:
  fixes out :: "'o Unmarshaler option"
  assumes "state (cl s) \<noteq> clientClosed"
  shows "(waiters_pop s = (w, s0) \<longrightarrow>
          encode_request M F (inb (heap s0 w)) meth inp = (b, None) \<longrightarrow>
          65535 < int (len b) - int (leadSize F) \<longrightarrow>
          (\<exists>s'. Call M F ok run meth inp out s = Some (Some ErrTooLarge, None, s') \<and>
                nothing_sent s s'))
       \<and> (65535 < int (length msg) + 1 \<longrightarrow>
          (\<exists>s'. sendCommand F K run cmd msg s = Some (Some ErrTooLarge, s') \<and>
                nothing_sent s s'))"
proof (intro conjI impI)
  assume pop: "waiters_pop s = (w, s0)"
    and enc: "encode_request M F (inb (heap s0 w)) meth inp = (b, None)"
    and big: "65535 < int (len b) - int (leadSize F)"
  have c0: "cl s0 = cl s" using pop by (rule waiters_pop_cl)
  then have "state (cl s0) \<noteq> clientClosed" using assms by simp
  from waiter_write_too_large [OF this enc big]
  have "Call M F ok run meth inp out s =
          Some (Some ErrTooLarge, None,
                waiters_push w (wg_Done (set_in w b (snd (next_csn (wg_Add 1 s0))))))"
    using pop by (simp add: Call_def call_def)
  moreover have "nothing_sent s (waiters_push w (wg_Done (set_in w b (snd (next_csn (wg_Add 1 s0))))))"
    using c0 by (simp add: nothing_sent_def waiters_push_cl state_defs)
  ultimately show "\<exists>s'. Call M F ok run meth inp out s = Some (Some ErrTooLarge, None, s') \<and>
                nothing_sent s s'" by blast
next
  assume big: "65535 < int (length msg) + 1"
  obtain w s0 where pop: "waiters_pop s = (w, s0)" by (cases "waiters_pop s")
  have c0: "cl s0 = cl s" using pop by (rule waiters_pop_cl)
  then have "state (cl s0) \<noteq> clientClosed" using assms by simp
  from writeCommand_too_large [OF this big]
  have "sendCommand F K run cmd msg s =
          Some (Some ErrTooLarge, wg_Done (snd (next_csn (wg_Add 1 s0))))"
    using pop by (simp add: sendCommand_def)
  moreover have "nothing_sent s (wg_Done (snd (next_csn (wg_Add 1 s0))))"
    using c0 by (simp add: nothing_sent_def state_defs)
  ultimately show "\<exists>s'. sendCommand F K run cmd msg s = Some (Some ErrTooLarge, s') \<and>
                nothing_sent s s'" by blast
qed

theorem too_large_rejected_before_framing_witness:
  "(\<exists>s'. Call mp wire 1 nobody 5 (Some (marshal_bytes (replicate 65535 7)))
            (None :: unit Unmarshaler option) (sys0 []) = Some (Some ErrTooLarge, None, s') \<and>
         nothing_sent (sys0 []) s')
   \<and> (\<exists>s'. sendCommand wire cmds nobody 1 (replicate 65535 7) (sys0 []) =
              Some (Some ErrTooLarge, s') \<and>
         nothing_sent (sys0 []) s')"
proof -
  define S0 where "S0 = upd_waiter 0 clear_waiter ((sys0 [])\<lparr>free := [1]\<rparr>)"
  define B where
    "B = fst (encode_request mp wire nil_slice 5 (Some (marshal_bytes (replicate 65535 7))))"
  have pop: "waiters_pop (sys0 []) = (0, S0)" by (simp add: pop_sys0 S0_def)
  have inb0: "inb (heap S0 0) = nil_slice" unfolding S0_def by (rule inb_popped)
  have enc: "encode_request mp wire (inb (heap S0 0)) 5
               (Some (marshal_bytes (replicate 65535 7))) = (B, None)"
    by (simp add: inb0 B_def encode_request_def marshal_bytes_def)
  have "len B = 65548"
    by (simp add: B_def encode_request_def marshal_bytes_def nil_slice_def cap_def wire_def
        make_slice_def mp_def mp_AppendUint32_def append_bytes_def be_bytes_def bytes_def Let_def)
  then have big: "65535 < int (len B) - int (leadSize wire)" by (simp add: wire_def)
  have msg: "65535 < int (length (replicate 65535 (7::byte))) + 1" by simp
  from too_large_rejected_before_framing [where s = "sys0 []" and w = 0 and ?s0.0 = S0
      and M = mp and F = wire and meth = 5
      and inp = "Some (marshal_bytes (replicate 65535 7))" and b = B
      and msg = "replicate 65535 7" and ok = 1 and run = nobody
      and out = "None :: unit Unmarshaler option" and K = cmds and cmd = 1, OF sys0_open]
    pop enc big msg
  show ?thesis by blast
qed

text \<open>
  C2 as stated fails on a closed client: the state check comes first, and a command of
  65,537 bytes returns \<^verbatim>\<open>ErrClosed\<close>, not \<^verbatim>\<open>ErrTooLarge\<close>.
\<close>

theorem too_large_on_closed_client:
  "65535 < int (length (replicate 65536 (7::byte))) + 1
   \<and> map_option fst (sendCommand wire cmds nobody 1 (replicate 65536 7) (closed_sys0 []))
       = Some (Some ErrClosed)
   \<and> map_option fst (sendCommand wire cmds nobody 1 (replicate 65536 7) (closed_sys0 []))
       \<noteq> Some (Some ErrTooLarge)"
proof -
  obtain w s0 where pop: "waiters_pop (closed_sys0 []) = (w, s0)"
    by (cases "waiters_pop (closed_sys0 [])")
  have "state (cl s0) = clientClosed"
    by (simp add: waiters_pop_cl [OF pop] closed_sys0_def)
  then show ?thesis using pop by (simp add: sendCommand_def writeCommand_closed)
qed


section \<open>The outstanding-work counter\<close>

lemma waiter_write_error_cases:
  assumes "waiter_write M F run w meth inp s = Some (Some e, s1)"
  shows "(state (cl s) = clientClosed \<and> e = ErrClosed \<and> s1 = wg_Add 1 s)
       \<or> (state (cl s) \<noteq> clientClosed \<and>
           (\<exists>b. s1 = set_in w b (snd (next_csn (wg_Add 1 s))) \<and>
                (encode_request M F (inb (heap s w)) meth inp = (b, Some e)
                 \<or> encode_request M F (inb (heap s w)) meth inp = (b, None) \<and>
                    e = ErrTooLarge \<and> 65535 < int (len b) - int (leadSize F))))"
  using assms
  by (auto simp: waiter_write_def state_defs maxMessageSize_def Let_def
      split: if_splits prod.splits option.splits)

lemma writeCommand_error_cases:
  assumes "writeCommand F run w cmd msg s = Some (Some e, s1)"
  shows "(state (cl s) = clientClosed \<and> e = ErrClosed \<and> s1 = wg_Add 1 s)
       \<or> (state (cl s) \<noteq> clientClosed \<and> e = ErrTooLarge \<and> 65535 < int (length msg) + 1 \<and>
           s1 = snd (next_csn (wg_Add 1 s)))"
  using assms
  by (auto simp: writeCommand_def state_defs maxMessageSize_def Let_def
      split: if_splits prod.splits option.splits)

lemma waiter_write_error_frame:
  assumes "waiter_write M F run w meth inp s = Some (Some e, s1)"
  shows "wg (cl s1) = wg (cl s) + 1 \<and> nothing_sent s s1"
  using waiter_write_error_cases [OF assms]
  by (auto simp: nothing_sent_def state_defs)

lemma writeCommand_error_frame:
  assumes "writeCommand F run w cmd msg s = Some (Some e, s1)"
  shows "wg (cl s1) = wg (cl s) + 1 \<and> nothing_sent s s1"
  using writeCommand_error_cases [OF assms]
  by (auto simp: nothing_sent_def state_defs)

lemma nothing_sent_wg_Done: "nothing_sent s (wg_Done s') = nothing_sent s s'"
  by (simp add: nothing_sent_def state_defs)

lemma nothing_sent_push: "nothing_sent s (waiters_push w s') = nothing_sent s s'"
  by (simp add: nothing_sent_def waiters_push_cl)

lemma nothing_sent_pop: "waiters_pop s = (w, s0) \<Longrightarrow> nothing_sent s s' = nothing_sent s0 s'"
  by (simp add: nothing_sent_def waiters_pop_cl)

lemma wg_wg_Done: "wg (cl (wg_Done s)) = wg (cl s) - 1"
  by (simp add: state_defs)

text \<open>
  C3. \<^verbatim>\<open>write\<close> and \<^verbatim>\<open>writeCommand\<close> add 1 to \<^verbatim>\<open>wg\<close> before they check the state,
  so every error they return (the failed state check, a marshal error, \<^verbatim>\<open>ErrTooLarge\<close>:
  \<open>waiter_write_error_cases\<close>, \<open>writeCommand_error_cases\<close>) comes back with the counter one
  higher; \<^verbatim>\<open>call\<close> and \<^verbatim>\<open>sendCommand\<close> then call \<^verbatim>\<open>wg.Done()\<close> and return that error,
  so \<^verbatim>\<open>Call\<close> and \<^verbatim>\<open>sendCommand\<close> return with \<^verbatim>\<open>wg\<close> as they found it, nothing having
  been enqueued.
\<close>

theorem wg_balanced_on_early_return:
  fixes out :: "'o Unmarshaler option"
  shows "(waiters_pop s = (w, s0) \<longrightarrow> waiter_write M F run w meth inp s0 = Some (Some e, s1) \<longrightarrow>
            wg (cl s1) = wg (cl s) + 1 \<and>
            (\<exists>s'. Call M F ok run meth inp out s = Some (Some e, None, s') \<and>
                  wg (cl s') = wg (cl s) \<and> nothing_sent s s'))
       \<and> (waiters_pop s = (w, s0) \<longrightarrow> writeCommand F run w cmd msg s0 = Some (Some e, s1) \<longrightarrow>
            wg (cl s1) = wg (cl s) + 1 \<and>
            (\<exists>s'. sendCommand F K run cmd msg s = Some (Some e, s') \<and>
                  wg (cl s') = wg (cl s) \<and> nothing_sent s s'))"
proof (intro conjI impI)
  assume pop: "waiters_pop s = (w, s0)"
    and wr: "waiter_write M F run w meth inp s0 = Some (Some e, s1)"
  have c0: "cl s0 = cl s" using pop by (rule waiters_pop_cl)
  from waiter_write_error_frame [OF wr]
  have f: "wg (cl s1) = wg (cl s) + 1" "nothing_sent s0 s1" using c0 by simp_all
  show "wg (cl s1) = wg (cl s) + 1" by (rule f)
  have "Call M F ok run meth inp out s = Some (Some e, None, waiters_push w (wg_Done s1))"
    using pop wr by (simp add: Call_def call_def)
  moreover have "wg (cl (waiters_push w (wg_Done s1))) = wg (cl s)"
    using f(1) by (simp add: waiters_push_cl wg_wg_Done)
  moreover have "nothing_sent s (waiters_push w (wg_Done s1))"
    using f(2) by (simp add: nothing_sent_push nothing_sent_wg_Done nothing_sent_pop [OF pop])
  ultimately show "\<exists>s'. Call M F ok run meth inp out s = Some (Some e, None, s') \<and>
                  wg (cl s') = wg (cl s) \<and> nothing_sent s s'" by blast
next
  assume pop: "waiters_pop s = (w, s0)"
    and wr: "writeCommand F run w cmd msg s0 = Some (Some e, s1)"
  have c0: "cl s0 = cl s" using pop by (rule waiters_pop_cl)
  from writeCommand_error_frame [OF wr]
  have f: "wg (cl s1) = wg (cl s) + 1" "nothing_sent s0 s1" using c0 by simp_all
  show "wg (cl s1) = wg (cl s) + 1" by (rule f)
  have "sendCommand F K run cmd msg s = Some (Some e, wg_Done s1)"
    using pop wr by (simp add: sendCommand_def)
  moreover have "wg (cl (wg_Done s1)) = wg (cl s)"
    using f(1) by (simp add: wg_wg_Done)
  moreover have "nothing_sent s (wg_Done s1)"
    using f(2) by (simp add: nothing_sent_wg_Done nothing_sent_pop [OF pop])
  ultimately show "\<exists>s'. sendCommand F K run cmd msg s = Some (Some e, s') \<and>
                  wg (cl s') = wg (cl s) \<and> nothing_sent s s'" by blast
qed

lemma pop_closed_sys0:
  "waiters_pop (closed_sys0 bs) = (0, upd_waiter 0 clear_waiter ((closed_sys0 bs)\<lparr>free := [1]\<rparr>))"
  by (simp add: waiters_pop_def closed_sys0_def sys0_def)

theorem wg_balanced_on_early_return_witness:
  "map_option fst (Call mp wire 1 nobody 5 (Some marshal_fails)
       (None :: unit Unmarshaler option) (sys0 [])) = Some (Some (ExtError ''cannot marshal''))
   \<and> map_option (wg \<circ> cl \<circ> snd \<circ> snd) (Call mp wire 1 nobody 5 (Some marshal_fails)
       (None :: unit Unmarshaler option) (sys0 [])) = Some (wg (cl (sys0 [])))
   \<and> map_option fst (sendCommand wire cmds nobody 1 [] (closed_sys0 [])) = Some (Some ErrClosed)
   \<and> map_option (wg \<circ> cl \<circ> snd) (sendCommand wire cmds nobody 1 [] (closed_sys0 []))
       = Some (wg (cl (closed_sys0 [])))"
proof -
  define S0 where "S0 = upd_waiter 0 clear_waiter ((sys0 [])\<lparr>free := [1]\<rparr>)"
  define B where "B = fst (encode_request mp wire nil_slice 5 (Some marshal_fails))"
  have pop: "waiters_pop (sys0 []) = (0, S0)" by (simp add: pop_sys0 S0_def)
  have inb0: "inb (heap S0 0) = nil_slice" unfolding S0_def by (rule inb_popped)
  have op: "state (cl S0) \<noteq> clientClosed"
    using sys0_open [of "[]"] by (simp add: waiters_pop_cl [OF pop])
  have enc: "encode_request mp wire (inb (heap S0 0)) 5 (Some marshal_fails)
               = (B, Some (ExtError ''cannot marshal''))"
    by (simp add: inb0 B_def encode_request_def marshal_fails_def)
  note wr = waiter_write_marshal_error [OF op enc]
  from wg_balanced_on_early_return [where s = "sys0 []" and w = 0 and ?s0.0 = S0 and M = mp
      and F = wire and meth = 5 and inp = "Some marshal_fails"
      and e = "ExtError ''cannot marshal''" and ok = 1 and run = nobody
      and out = "None :: unit Unmarshaler option", THEN conjunct1] pop wr
  have a: "\<exists>s'. Call mp wire 1 nobody 5 (Some marshal_fails) (None :: unit Unmarshaler option)
              (sys0 []) = Some (Some (ExtError ''cannot marshal''), None, s') \<and>
            wg (cl s') = wg (cl (sys0 []))" by blast
  define C0 where "C0 = upd_waiter 0 clear_waiter ((closed_sys0 [])\<lparr>free := [1]\<rparr>)"
  have popc: "waiters_pop (closed_sys0 []) = (0, C0)" by (simp add: pop_closed_sys0 C0_def)
  have "state (cl C0) = clientClosed"
    by (simp add: waiters_pop_cl [OF popc] closed_sys0_def)
  note wc = writeCommand_closed [OF this, of wire nobody 0 1 "[]"]
  from wg_balanced_on_early_return [where s = "closed_sys0 []" and w = 0 and ?s0.0 = C0
      and F = wire and cmd = 1 and msg = "[]" and e = ErrClosed and K = cmds and run = nobody,
      THEN conjunct2] popc wc
  have b: "\<exists>s'. sendCommand wire cmds nobody 1 [] (closed_sys0 []) = Some (Some ErrClosed, s') \<and>
            wg (cl s') = wg (cl (closed_sys0 []))" by blast
  from a b show ?thesis by auto
qed


section \<open>Sequence numbers\<close>

text \<open>
  An invocation that returns without error has obtained the number after the counter,
  stored it in its waiter, registered the waiter under it in the pending map and put it
  on the queue of the writer.
\<close>

lemma map_of_wMap_insert: "map_of (wMap_insert k w m) k = Some w"
  by (simp add: wMap_insert_def)

lemma writebody_effect:
  assumes "writebody run w sq s = Some s'" and "length (writing (cl s)) < waiterHWM"
  shows "seq (heap s' w) = sq \<and> \<not> reap (heap s' w) \<and>
         map_of (pending (cl s')) sq = Some w \<and>
         writing (cl s') = writing (cl s) @ [w] \<and> \<not> writing_closed (cl s) \<and>
         inb (heap s' w) = inb (heap s w) \<and> wg (cl s') = wg (cl s) \<and>
         csn (cl s') = csn (cl s) \<and> state (cl s') = state (cl s)"
  using assms
  by (auto simp: writebody_def chan_send_def park_def pending_insert_def upd_client_def
      upd_waiter_def map_of_wMap_insert split: if_splits)

lemma writeCommand_enqueues:
  assumes "writeCommand F run w cmd msg s = Some (None, s')"
    and "length (writing (cl s)) < waiterHWM"
  shows "state (cl s) \<noteq> clientClosed \<and> seq (heap s' w) = csn (cl s) + 1 \<and>
         csn (cl s') = csn (cl s) + 1 \<and>
         map_of (pending (cl s')) (csn (cl s) + 1) = Some w \<and>
         writing (cl s') = writing (cl s) @ [w] \<and> wg (cl s') = wg (cl s) + 1"
  using assms
  by (auto simp: writeCommand_def state_defs Let_def maxMessageSize_def
      split: if_splits option.splits dest!: writebody_effect)

lemma waiter_write_enqueues:
  assumes "waiter_write M F run w meth inp s = Some (None, s')"
    and "length (writing (cl s)) < waiterHWM"
  shows "state (cl s) \<noteq> clientClosed \<and> seq (heap s' w) = csn (cl s) + 1 \<and>
         csn (cl s') = csn (cl s) + 1 \<and>
         map_of (pending (cl s')) (csn (cl s) + 1) = Some w \<and>
         writing (cl s') = writing (cl s) @ [w] \<and> wg (cl s') = wg (cl s) + 1"
  using assms
  by (auto simp: waiter_write_def state_defs Let_def maxMessageSize_def
      split: if_splits option.splits prod.splits dest!: writebody_effect)

lemma cl_upd_waiter: "cl (upd_waiter w f s) = cl s"
  by (simp add: upd_waiter_def)

lemma cl_sema_Wake: "cl (sema_Wake w s) = cl s"
  by (simp add: sema_Wake_def cl_upd_waiter)

lemma cl_fold_waiters:
  assumes "\<And>k w t. cl (g k w t) = cl t"
  shows "cl (fold (\<lambda>(k, w) t. g k w t) xs s) = cl s"
  using assms by (induction xs arbitrary: s) (auto)



lemma flush_while_empty: "pending (cl s) = [] \<Longrightarrow> flush_while e s = s"
  by (subst flush_while.simps) (simp add: wMap_length_def)


lemma park_nobody: "park ready nobody s = (if ready s then Some s else None)"
  by (simp add: park_def nobody_def)




text \<open>
  A pass of the reader changes the client through \<^verbatim>\<open>conn\<close> and \<^verbatim>\<open>pending\<close> only,
  and through \<^verbatim>\<open>closeError\<close>: a projection \<open>g\<close> of the client that does not look at
  the first two and is kept by the third is kept by the pass.
\<close>

lemma do_io_keeps:
  fixes g :: "Client \<Rightarrow> 'a"
  assumes "do_io run e s = Some (b, s')"
    and "\<And>x t'. closeError run x s = Some t' \<Longrightarrow> g (cl t') = g (cl s)"
  shows "g (cl s') = g (cl s)"
  using assms by (auto simp: do_io_def split: option.splits)

lemma skip_body_keeps:
  fixes g :: "Client \<Rightarrow> 'a"
  assumes sb: "skip_body run sz s = Some (b, s')"
    and gc: "\<And>c x. g (c\<lparr>conn := x\<rparr>) = g c"
    and ce: "\<And>x t t'. g (cl t) = g (cl s) \<Longrightarrow> closeError run x t = Some t' \<Longrightarrow> g (cl t') = g (cl t)"
  shows "g (cl s') = g (cl s)"
proof -
  obtain e s1 where sk: "Skip sz s = (e, s1)" by (cases "Skip sz s")
  then have c1: "g (cl s1) = g (cl s)"
    by (auto simp: Skip_def set_incoming_def upd_client_def Let_def gc split: if_splits)
  have "do_io run e s1 = Some (b, s')" using sb sk by (simp add: skip_body_def)
  then have "g (cl s') = g (cl s1)" by (rule do_io_keeps) (rule ce [OF c1])
  then show ?thesis using c1 by simp
qed

lemma readLoop_body_keeps:
  fixes g :: "Client \<Rightarrow> 'a"
  assumes rb: "readLoop_body F run s = Some (again, s')"
    and gc: "\<And>c x. g (c\<lparr>conn := x\<rparr>) = g c"
    and gp: "\<And>c x. g (c\<lparr>pending := x\<rparr>) = g c"
    and ce: "\<And>x t t'. g (cl t) = g (cl s) \<Longrightarrow> closeError run x t = Some t' \<Longrightarrow> g (cl t') = g (cl t)"
  shows "g (cl s') = g (cl s)"
proof -
  have rfk: "\<And>n t. g (cl (snd (ReadFull n t))) = g (cl t)"
    by (simp add: ReadFull_def set_incoming_def upd_client_def Let_def gc)
  obtain lead e s1 where rf: "ReadFull (leadSize F) s = ((lead, e), s1)"
    by (cases "ReadFull (leadSize F) s") auto
  have c1: "g (cl s1) = g (cl s)" using rfk [of "leadSize F" s] rf by simp
  obtain ok s2 where d1: "do_io run e s1 = Some (ok, s2)"
    using rb rf by (cases "do_io run e s1") (auto simp: readLoop_body_def)
  have "g (cl s2) = g (cl s1)" by (rule do_io_keeps [OF d1]) (rule ce [OF c1])
  then have c2: "g (cl s2) = g (cl s)" using c1 by simp
  show ?thesis
  proof (cases ok)
    case False
    then show ?thesis using rb rf d1 c2 by (simp add: readLoop_body_def)
  next
    case True
    obtain sq frame sz where fr: "readFrame F lead = (sq, frame, sz)"
      by (cases "readFrame F lead") auto
    show ?thesis
    proof (cases "frame \<noteq> fCMD \<and> frame \<noteq> fRES")
      case bad: True
      have c2': "g (cl (errorf (bad_frame_msg s2) s2)) = g (cl s)"
        using c2 by (simp add: errorf_def split: option.splits)
      have "skip_body run sz (errorf (bad_frame_msg s2) s2) = Some (again, s')"
        using rb rf d1 True fr bad by (simp add: readLoop_body_def)
      then have "g (cl s') = g (cl (errorf (bad_frame_msg s2) s2))"
      proof (rule skip_body_keeps)
        show "\<And>c x. g (c\<lparr>conn := x\<rparr>) = g c" by (rule gc)
        show "\<And>x t t'. g (cl t) = g (cl (errorf (bad_frame_msg s2) s2)) \<Longrightarrow>
                 closeError run x t = Some t' \<Longrightarrow> g (cl t') = g (cl t)"
          using c2' ce by metis
      qed
      then show ?thesis using c2' by simp
    next
      case good: False
      have sel: "\<And>a b :: (bool \<times> sys) option.
                   (if frame \<noteq> fCMD \<and> frame \<noteq> fRES then a else b) = b"
        using good by (rule if_not_P)
      obtain r s3 where pr: "pending_remove sq s2 = (r, s3)" by (cases "pending_remove sq s2")
      have c3: "g (cl s3) = g (cl s)"
        using pr c2 by (auto simp: pending_remove_def upd_client_def gp split: prod.splits)
      show ?thesis
      proof (cases r)
        case None
        then have "skip_body run sz s3 = Some (again, s')"
          using rb rf d1 True fr pr by (simp add: readLoop_body_def sel del: de_Morgan_conj)
        then have "g (cl s') = g (cl s3)"
        proof (rule skip_body_keeps)
          show "\<And>c x. g (c\<lparr>conn := x\<rparr>) = g c" by (rule gc)
          show "\<And>x t t'. g (cl t) = g (cl s3) \<Longrightarrow>
                   closeError run x t = Some t' \<Longrightarrow> g (cl t') = g (cl t)"
            using c3 ce by metis
        qed
        then show ?thesis using c3 by simp
      next
        case (Some w)
        define s4 where "s4 = upd_waiter w (\<lambda>x. x\<lparr>inb := (if sz \<le> cap (inb (heap s3 w))
                           then reslice (inb (heap s3 w)) sz else make_slice sz sz)\<rparr>) s3"
        obtain body e' s5 where rb5: "ReadFull sz s4 = ((body, e'), s5)"
          by (cases "ReadFull sz s4") auto
        have c5: "g (cl s5) = g (cl s)"
          using rfk [of sz s4] rb5 c3 by (simp add: s4_def cl_upd_waiter)
        define s5' where "s5' = upd_waiter w (\<lambda>x. x\<lparr>inb := fill (inb x) body\<rparr>) s5"
        have c5': "g (cl s5') = g (cl s)" using c5 by (simp add: s5'_def cl_upd_waiter)
        have body_eq: "readLoop_body F run s =
            (case do_io run e' s5' of None \<Rightarrow> None
             | Some (False, s6) \<Rightarrow> Some (False, s6)
             | Some (True, s6) \<Rightarrow> Some (True, sema_Wake w (upd_waiter w (\<lambda>x. x\<lparr>err := None\<rparr>) s6)))"
          using rf d1 True fr pr Some rb5
          by (simp add: readLoop_body_def sel s4_def [symmetric] Let_def s5'_def
              del: de_Morgan_conj)
        obtain ok' s6 where d2: "do_io run e' s5' = Some (ok', s6)"
          using rb body_eq by (cases "do_io run e' s5'") auto
        have "g (cl s6) = g (cl s5')" by (rule do_io_keeps [OF d2]) (rule ce [OF c5'])
        then have c6: "g (cl s6) = g (cl s)" using c5' by simp
        show ?thesis using rb body_eq d2 c6
          by (cases ok') (auto simp: cl_sema_Wake cl_upd_waiter)
      qed
    qed
  qed
qed



text \<open>
  The same for a pass of the writer, which changes the client through \<^verbatim>\<open>conn\<close> and
  \<^verbatim>\<open>writing\<close> only, and through \<^verbatim>\<open>closeError\<close>.
\<close>

lemma writeLoop_more_keeps:
  fixes g :: "Client \<Rightarrow> 'a"
  assumes "writeLoop_more run buf s = Some (b, s')"
    and gc: "\<And>c x. g (c\<lparr>conn := x\<rparr>) = g c"
    and gw: "\<And>c x. g (c\<lparr>writing := x\<rparr>) = g c"
    and ce: "\<And>x t t'. g (cl t) = g (cl s) \<Longrightarrow> closeError run x t = Some t' \<Longrightarrow> g (cl t') = g (cl t)"
  shows "g (cl s') = g (cl s)"
  using assms(1) ce
proof (induction run buf s rule: writeLoop_more.induct)
  case (1 run buf s)
  obtain r s1 where cr: "chan_recv s = (r, s1)" by (cases "chan_recv s")
  have g1: "g (cl s1) = g (cl s)"
    using cr by (auto simp: chan_recv_def upd_client_def gw split: list.splits)
  show ?case
  proof (cases r)
    case None
    obtain b' e s2 where fl: "bwr_Flush buf s1 = ((b', e), s2)"
      by (cases "bwr_Flush buf s1") auto
    have g2: "g (cl s2) = g (cl s)"
      using fl g1 by (auto simp: bwr_Flush_def upd_client_def gc split: option.splits)
    have res: "(if writing_closed (cl s1) then Some (False, s2) else do_io run e s2) = Some (b, s')"
      using "1.prems"(1) cr None fl by (subst (asm) writeLoop_more.simps) simp
    show ?thesis
    proof (cases "writing_closed (cl s1)")
      case True
      then show ?thesis using res g2 by simp
    next
      case False
      then have "do_io run e s2 = Some (b, s')" using res by simp
      then have "g (cl s') = g (cl s2)" by (rule do_io_keeps) (rule "1.prems"(2) [OF g2])
      then show ?thesis using g2 by simp
    qed
  next
    case (Some w)
    have bw: "bwr_Write buf (bytes (inb (heap s1 w))) = (buf @ bytes (inb (heap s1 w)), None)"
      by (simp add: bwr_Write_def)
    have rec: "writeLoop_more run (buf @ bytes (inb (heap s1 w))) s1 = Some (b, s')"
      using "1.prems"(1) cr Some bw by (subst (asm) writeLoop_more.simps) simp
    have ce1: "\<And>x t t'. g (cl t) = g (cl s1) \<Longrightarrow> closeError run x t = Some t' \<Longrightarrow>
                 g (cl t') = g (cl t)"
    proof -
      fix x t t'
      assume "g (cl t) = g (cl s1)" and c: "closeError run x t = Some t'"
      then have "g (cl t) = g (cl s)" using g1 by simp
      then show "g (cl t') = g (cl t)" using c by (rule "1.prems"(2))
    qed
    have "g (cl s') = g (cl s1)"
      by (rule "1.IH" [OF cr [symmetric] Some bw [symmetric] refl rec ce1])
    then show ?thesis using g1 by simp
  qed
qed

lemma writeLoop_body_keeps:
  fixes g :: "Client \<Rightarrow> 'a"
  assumes wb: "writeLoop_body nobody s = Some (b, s')"
    and gc: "\<And>c x. g (c\<lparr>conn := x\<rparr>) = g c"
    and gw: "\<And>c x. g (c\<lparr>writing := x\<rparr>) = g c"
    and ce: "\<And>x t t'. g (cl t) = g (cl s) \<Longrightarrow> closeError nobody x t = Some t' \<Longrightarrow>
               g (cl t') = g (cl t)"
  shows "g (cl s') = g (cl s)"
proof -
  have pk: "park (\<lambda>t. writing (cl t) \<noteq> [] \<or> writing_closed (cl t)) nobody s = Some s"
    using wb by (auto simp: writeLoop_body_def park_nobody split: if_splits)
  obtain r s1 where cr: "chan_recv s = (r, s1)" by (cases "chan_recv s")
  have g1: "g (cl s1) = g (cl s)"
    using cr by (auto simp: chan_recv_def upd_client_def gw split: list.splits)
  show ?thesis
  proof (cases r)
    case None
    then have "s' = s1" using wb pk cr by (simp add: writeLoop_body_def)
    then show ?thesis using g1 by simp
  next
    case (Some w)
    have "writeLoop_more nobody ([] @ bytes (inb (heap s1 w))) s1 = Some (b, s')"
      using wb pk cr Some by (simp add: writeLoop_body_def bwr_Write_def)
    then have "g (cl s') = g (cl s1)"
    proof (rule writeLoop_more_keeps)
      show "\<And>c x. g (c\<lparr>conn := x\<rparr>) = g c" by (rule gc)
      show "\<And>c x. g (c\<lparr>writing := x\<rparr>) = g c" by (rule gw)
      show "\<And>x t t'. g (cl t) = g (cl s1) \<Longrightarrow> closeError nobody x t = Some t' \<Longrightarrow>
              g (cl t') = g (cl t)"
      proof -
        fix x t t'
        assume "g (cl t) = g (cl s1)" and c: "closeError nobody x t = Some t'"
        then have "g (cl t) = g (cl s)" using g1 by simp
        then show "g (cl t') = g (cl t)" using c by (rule ce)
      qed
    qed
    then show ?thesis using g1 by simp
  qed
qed











lemmas eval_defs =
  sys0_def client0_def conn0_def late_sys0_def closed_sys0_def new_waiter_def nil_slice_def
  clientOpen_def clientClosed_def maxMessageSize_def
  writeCommand_def waiter_write_def encode_request_def writebody_def chan_send_def
  park_def nobody_def waiterHWM_def
  pending_insert_def wMap_insert_def upd_client_def upd_waiter_def wg_Add_def wg_Done_def
  next_csn_def set_in_def
  wire_def wire_putFrame_def wire_readFrame_def kind_byte_def byte_kind_def
  mp_def mp_AppendUint32_def mp_AppendMapHeader_def append_bytes_def be_bytes_def be_nat_def
  cap_def bytes_def reslice_def make_slice_def store_def copy_at_def fill_def
  Let_def upt_rec




section \<open>The reader\<close>

lemma filter_absent_key:
  "map_of m k = None \<Longrightarrow> filter (\<lambda>(k', _). k' \<noteq> k) m = m"
  by (induction m) (auto split: if_splits)

lemma map_of_filter_key: "map_of (filter (\<lambda>(k', _). k' \<noteq> k) m) k = None"
  by (induction m) auto

lemma do_io_ok: "do_io run None s = Some (True, s)"
  by (simp add: do_io_def)

lemma ReadFull_enough:
  assumes "incoming (conn (cl s)) = i" and "n \<le> length i"
  shows "ReadFull n s = ((take n i, None), set_incoming (drop n i) s)"
  using assms by (simp add: ReadFull_def)

lemma Skip_enough:
  assumes "incoming (conn (cl s)) = i" and "n \<le> length i"
  shows "Skip n s = (None, set_incoming (drop n i) s)"
  using assms by (simp add: Skip_def)

lemma incoming_set_incoming: "incoming (conn (cl (set_incoming bs s))) = bs"
  by (simp add: set_incoming_def upd_client_def)

lemma set_incoming_twice: "set_incoming bs (set_incoming bs' s) = set_incoming bs s"
  by (simp add: set_incoming_def upd_client_def)

lemma skip_body_enough:
  assumes "incoming (conn (cl s)) = i" and "n \<le> length i"
  shows "skip_body run n s = Some (True, set_incoming (drop n i) s)"
  using Skip_enough [OF assms] by (simp add: skip_body_def do_io_ok)

lemma bytes_fill:
  assumes "len b = length body" and "length body \<le> cap b"
  shows "bytes (fill b body) = body"
  using assms by (simp add: bytes_def fill_def cap_def Let_def)

lemma readLoop_body_lead:
  assumes "incoming (conn (cl s)) = i" and "leadSize F \<le> length i"
    and "readFrame F (take (leadSize F) i) = (sq, k, sz)"
  shows "readLoop_body F run s =
     (let s2 = set_incoming (drop (leadSize F) i) s in
      if k \<noteq> fCMD \<and> k \<noteq> fRES
                then skip_body run sz (errorf (bad_frame_msg s2) s2)
                else (case pending_remove sq s2 of
                        (None, s3) \<Rightarrow> skip_body run sz s3
                      | (Some w, s3) \<Rightarrow>
                          (let b = inb (heap s3 w);
                               s4 = upd_waiter w
                                      (\<lambda>x. x\<lparr>inb := (if sz \<le> cap b then reslice b sz
                                                       else make_slice sz sz)\<rparr>) s3
                           in case ReadFull sz s4 of ((body, e'), s5) \<Rightarrow>
                                (case do_io run e'
                                        (upd_waiter w (\<lambda>x. x\<lparr>inb := fill (inb x) body\<rparr>) s5) of
                                   None \<Rightarrow> None
                                 | Some (False, s6) \<Rightarrow> Some (False, s6)
                                 | Some (True, s6) \<Rightarrow>
                                     Some (True,
                                       sema_Wake w (upd_waiter w (\<lambda>x. x\<lparr>err := None\<rparr>) s6))))))"
  using ReadFull_enough [OF assms(1,2)] assms(3)
  by (simp add: readLoop_body_def do_io_ok Let_def del: de_Morgan_conj)

lemma raddr_set_incoming: "bad_frame_msg (set_incoming bs s) = bad_frame_msg s"
  by (simp add: bad_frame_msg_def set_incoming_def upd_client_def)

lemma incoming_errorf: "incoming (conn (cl (errorf m s))) = incoming (conn (cl s))"
  by (simp add: errorf_def split: option.splits)

lemma set_incoming_errorf: "set_incoming bs (errorf m s) = errorf m (set_incoming bs s)"
  by (simp add: errorf_def set_incoming_def upd_client_def split: option.splits)

lemma reader_bad_kind:
  assumes i: "incoming (conn (cl s)) = i" and l: "leadSize F \<le> length i"
    and fr: "readFrame F (take (leadSize F) i) = (sq, k, sz)"
    and b: "sz \<le> length (drop (leadSize F) i)"
    and k: "k \<noteq> fRES" "k \<noteq> fCMD"
  shows "readLoop_body F run s =
           Some (True, errorf (bad_frame_msg s) (set_incoming (drop (leadSize F + sz) i) s))"
proof -
  let ?s2 = "set_incoming (drop (leadSize F) i) s"
  have "incoming (conn (cl (errorf (bad_frame_msg ?s2) ?s2))) = drop (leadSize F) i"
    by (simp add: incoming_errorf incoming_set_incoming)
  from skip_body_enough [OF this b]
  have "skip_body run sz (errorf (bad_frame_msg ?s2) ?s2) =
          Some (True, errorf (bad_frame_msg s) (set_incoming (drop (leadSize F + sz) i) s))"
    by (simp add: set_incoming_errorf set_incoming_twice raddr_set_incoming add.commute)
  then show ?thesis using readLoop_body_lead [OF i l fr] k by (simp add: Let_def)
qed

lemma pending_remove_absent:
  assumes "map_of (pending (cl s)) sq = None"
  shows "pending_remove sq s = (None, s)"
  using assms by (simp add: pending_remove_def wMap_remove_def filter_absent_key upd_client_def)

lemma pending_set_incoming: "pending (cl (set_incoming bs s)) = pending (cl s)"
  by (simp add: set_incoming_def upd_client_def)

lemma reader_unknown_seq:
  assumes i: "incoming (conn (cl s)) = i" and l: "leadSize F \<le> length i"
    and fr: "readFrame F (take (leadSize F) i) = (sq, k, sz)"
    and b: "sz \<le> length (drop (leadSize F) i)"
    and k: "k = fRES \<or> k = fCMD"
    and p: "map_of (pending (cl s)) sq = None"
  shows "readLoop_body F run s = Some (True, set_incoming (drop (leadSize F + sz) i) s)"
proof -
  let ?s2 = "set_incoming (drop (leadSize F) i) s"
  have sel: "\<And>a b :: (bool \<times> sys) option. (if k \<noteq> fCMD \<and> k \<noteq> fRES then a else b) = b"
    using k by auto
  have pr: "pending_remove sq ?s2 = (None, ?s2)"
    using p by (simp add: pending_remove_absent pending_set_incoming)
  have "incoming (conn (cl ?s2)) = drop (leadSize F) i" by (simp add: incoming_set_incoming)
  from skip_body_enough [OF this b]
  have "skip_body run sz ?s2 = Some (True, set_incoming (drop (leadSize F + sz) i) s)"
    by (simp add: set_incoming_twice add.commute)
  then show ?thesis using readLoop_body_lead [OF i l fr] pr by (simp add: Let_def sel)
qed

lemma pending_remove_present:
  assumes "map_of (pending (cl s)) sq = Some w"
  shows "pending_remove sq s =
           (Some w, upd_client (\<lambda>c. c\<lparr>pending := filter (\<lambda>(k', _). k' \<noteq> sq) (pending c)\<rparr>) s)"
  using assms by (simp add: pending_remove_def wMap_remove_def upd_client_def)

lemma reader_delivers:
  assumes i: "incoming (conn (cl s)) = i" and l: "leadSize F \<le> length i"
    and fr: "readFrame F (take (leadSize F) i) = (sq, k, sz)"
    and b: "sz \<le> length (drop (leadSize F) i)"
    and k: "k = fRES \<or> k = fCMD"
    and p: "map_of (pending (cl s)) sq = Some w"
  shows "\<exists>s'. readLoop_body F run s = Some (True, s') \<and>
           bytes (inb (heap s' w)) = take sz (drop (leadSize F) i) \<and>
           err (heap s' w) = None \<and> wdone (heap s' w) \<and>
           (\<forall>w'. w' \<noteq> w \<longrightarrow> heap s' w' = heap s w') \<and>
           pending (cl s') = filter (\<lambda>(k', _). k' \<noteq> sq) (pending (cl s)) \<and>
           map_of (pending (cl s')) sq = None \<and>
           incoming (conn (cl s')) = drop (leadSize F + sz) i"
proof -
  define body where "body = take sz (drop (leadSize F) i)"
  have lb: "length body = sz" using b by (simp add: body_def)
  let ?s2 = "set_incoming (drop (leadSize F) i) s"
  let ?s3 = "upd_client (\<lambda>c. c\<lparr>pending := filter (\<lambda>(k', _). k' \<noteq> sq) (pending c)\<rparr>) ?s2"
  define b' where "b' = (if sz \<le> cap (inb (heap ?s3 w)) then reslice (inb (heap ?s3 w)) sz
                         else make_slice sz sz)"
  let ?s4 = "upd_waiter w (\<lambda>x. x\<lparr>inb := b'\<rparr>) ?s3"
  let ?s5 = "set_incoming (drop sz (drop (leadSize F) i)) ?s4"
  let ?s6 = "upd_waiter w (\<lambda>x. x\<lparr>inb := fill (inb x) body\<rparr>) ?s5"
  let ?s7 = "sema_Wake w (upd_waiter w (\<lambda>x. x\<lparr>err := None\<rparr>) ?s6)"
  have sel: "\<And>a b :: (bool \<times> sys) option. (if k \<noteq> fCMD \<and> k \<noteq> fRES then a else b) = b"
    using k by auto
  have pr: "pending_remove sq ?s2 = (Some w, ?s3)"
    using p by (simp add: pending_remove_present pending_set_incoming)
  have "incoming (conn (cl ?s4)) = drop (leadSize F) i"
    by (simp add: upd_waiter_def upd_client_def set_incoming_def)
  from ReadFull_enough [OF this b]
  have rf: "ReadFull sz ?s4 = ((body, None), ?s5)" by (simp add: body_def)
  have run: "readLoop_body F run s = Some (True, ?s7)"
    using readLoop_body_lead [OF i l fr] pr rf
    by (simp add: Let_def sel b'_def [symmetric] do_io_ok)
  have b'len: "len b' = sz" "sz \<le> cap b'"
    by (auto simp: b'_def reslice_def make_slice_def cap_def)
  have inb7: "inb (heap ?s7 w) = fill b' body"
    by (simp add: sema_Wake_def upd_waiter_def upd_client_def set_incoming_def)
  have "bytes (inb (heap ?s7 w)) = body"
    unfolding inb7 using b'len lb by (simp add: bytes_fill)
  moreover have "err (heap ?s7 w) = None" "wdone (heap ?s7 w)"
    by (simp_all add: sema_Wake_def upd_waiter_def)
  moreover have "\<forall>w'. w' \<noteq> w \<longrightarrow> heap ?s7 w' = heap s w'"
    by (simp add: sema_Wake_def upd_waiter_def upd_client_def set_incoming_def)
  moreover have pe: "pending (cl ?s7) = filter (\<lambda>(k', _). k' \<noteq> sq) (pending (cl s))"
    by (simp add: sema_Wake_def upd_waiter_def upd_client_def set_incoming_def)
  moreover have "map_of (pending (cl ?s7)) sq = None"
    unfolding pe by (rule map_of_filter_key)
  moreover have "incoming (conn (cl ?s7)) = drop (leadSize F + sz) i"
    by (simp add: sema_Wake_def upd_waiter_def upd_client_def set_incoming_def add.commute)
  ultimately show ?thesis using run body_def by blast
qed

text \<open>
  C6, as the code has it. When the stream holds a whole frame (the lead and the body it
  announces), one pass of the reader does this. A frame of kind RES or CMD whose sequence
  number has a waiter in the pending map: the waiter is taken out of the map, its buffer
  is filled with the body, its error is cleared and it is signalled, and no other waiter
  is touched; the two kinds take the same path (\<open>reader_RES_CMD_alike\<close>). A frame of kind
  RES or CMD with no waiter under its sequence number: the body is skipped, and nothing
  else changes. A frame of any other kind: the body is skipped and the event is handed to
  \<^verbatim>\<open>errorf\<close>, which prints it when \<^verbatim>\<open>ErrorLogger\<close> is set and drops it when it is
  \<^verbatim>\<open>nil\<close>; nothing else changes. In the two skipping cases no waiter is signalled.
\<close>

theorem reader_routes_frames:
  assumes "incoming (conn (cl s)) = i" and "leadSize F \<le> length i"
    and "readFrame F (take (leadSize F) i) = (sq, k, sz)"
    and "sz \<le> length (drop (leadSize F) i)"
  shows "((k = fRES \<or> k = fCMD) \<longrightarrow> map_of (pending (cl s)) sq = Some w \<longrightarrow>
           (\<exists>s'. readLoop_body F run s = Some (True, s') \<and>
             bytes (inb (heap s' w)) = take sz (drop (leadSize F) i) \<and>
             err (heap s' w) = None \<and> wdone (heap s' w) \<and>
             (\<forall>w'. w' \<noteq> w \<longrightarrow> heap s' w' = heap s w') \<and>
             pending (cl s') = filter (\<lambda>(k', _). k' \<noteq> sq) (pending (cl s)) \<and>
             map_of (pending (cl s')) sq = None \<and>
             incoming (conn (cl s')) = drop (leadSize F + sz) i))
       \<and> ((k = fRES \<or> k = fCMD) \<longrightarrow> map_of (pending (cl s)) sq = None \<longrightarrow>
           readLoop_body F run s = Some (True, set_incoming (drop (leadSize F + sz) i) s))
       \<and> (k \<noteq> fRES \<and> k \<noteq> fCMD \<longrightarrow>
           readLoop_body F run s =
             Some (True, errorf (bad_frame_msg s) (set_incoming (drop (leadSize F + sz) i) s)))"
  using reader_delivers [OF assms] reader_unknown_seq [OF assms] reader_bad_kind [OF assms]
  by blast

lemma reader_RES_CMD_alike:
  assumes "leadSize F' = leadSize F"
    and "readFrame F lead = (sq, fRES, sz)" and "readFrame F' lead = (sq, fCMD, sz)"
    and "fst (fst (ReadFull (leadSize F) s)) = lead"
  shows "readLoop_body F' run s = readLoop_body F run s"
proof -
  obtain e s1 where rf: "ReadFull (leadSize F) s = ((lead, e), s1)"
    using assms(4) by (cases "ReadFull (leadSize F) s") auto
  show ?thesis
  proof (cases "do_io run e s1")
    case None
    then show ?thesis by (simp add: readLoop_body_def assms(1) rf)
  next
    case (Some r)
    obtain ok s2 where r: "r = (ok, s2)" by (cases r)
    show ?thesis using Some r
      by (cases ok) (simp_all add: readLoop_body_def assms(1) rf assms(2,3))
  qed
qed

lemma pending_pinging: "pending (cl (pinging_sys0 bs)) = [(1, 0)]"
  by (simp add: pinging_sys0_def waiters_pop_def cmds_def clear_waiter_def eval_defs)

lemma incoming_pinging: "incoming (conn (cl (pinging_sys0 bs))) = bs"
  by (simp add: pinging_sys0_def waiters_pop_def cmds_def clear_waiter_def eval_defs)

lemma logger_pinging: "ErrorLogger (pinging_sys0 bs) = Some []"
  by (simp add: pinging_sys0_def waiters_pop_def cmds_def clear_waiter_def eval_defs)

lemma raddr_pinging: "bad_frame_msg (pinging_sys0 bs) = ''server at addr 10.0.0.1:7000 sent a bad frame''"
  by (simp add: bad_frame_msg_def pinging_sys0_def waiters_pop_def cmds_def clear_waiter_def eval_defs)

theorem reader_routes_frames_witness:
  "(\<exists>s'. readLoop_body wire nobody (pinging_sys0 [0,0,0,0,0,0,0,1, 3, 0,1, 0, 1]) = Some (True, s')
        \<and> bytes (inb (heap s' 0)) = [1] \<and> err (heap s' 0) = None \<and> wdone (heap s' 0)
        \<and> pending (cl s') = [] \<and> incoming (conn (cl s')) = [])
   \<and> readLoop_body wire nobody (pinging_sys0 [0,0,0,0,0,0,0,9, 2, 0,1, 0, 1])
       = Some (True, set_incoming [] (pinging_sys0 [0,0,0,0,0,0,0,9, 2, 0,1, 0, 1]))
   \<and> map_option (ErrorLogger \<circ> snd)
        (readLoop_body wire nobody (pinging_sys0 [0,0,0,0,0,0,0,1, 1, 0,1, 0, 1]))
       = Some (Some [''server at addr 10.0.0.1:7000 sent a bad frame''])"
proof -
  let ?a = "[0,0,0,0,0,0,0,1, 3, 0,1, 0, 1] :: byte list"
  let ?b = "[0,0,0,0,0,0,0,9, 2, 0,1, 0, 1] :: byte list"
  let ?c = "[0,0,0,0,0,0,0,1, 1, 0,1, 0, 1] :: byte list"
  have l: "leadSize wire \<le> length ?a" "leadSize wire \<le> length ?b" "leadSize wire \<le> length ?c"
    by (simp_all add: wire_def)
  have fa: "readFrame wire (take (leadSize wire) ?a) = (1, fCMD, 1)"
    by (simp add: wire_def wire_readFrame_def byte_kind_def be_nat_def)
  have fb: "readFrame wire (take (leadSize wire) ?b) = (9, fRES, 1)"
    by (simp add: wire_def wire_readFrame_def byte_kind_def be_nat_def)
  have fc: "readFrame wire (take (leadSize wire) ?c) = (1, fREQ, 1)"
    by (simp add: wire_def wire_readFrame_def byte_kind_def be_nat_def)
  have ba: "1 \<le> length (drop (leadSize wire) ?a)" "1 \<le> length (drop (leadSize wire) ?b)"
    "1 \<le> length (drop (leadSize wire) ?c)"
    by (simp_all add: wire_def)
  from reader_routes_frames [OF incoming_pinging l(1) fa ba(1), of 0 nobody, THEN conjunct1]
  have A: "\<exists>s'. readLoop_body wire nobody (pinging_sys0 ?a) = Some (True, s')
        \<and> bytes (inb (heap s' 0)) = [1] \<and> err (heap s' 0) = None \<and> wdone (heap s' 0)
        \<and> pending (cl s') = [] \<and> incoming (conn (cl s')) = []"
    by (auto simp: pending_pinging wire_def)
  from reader_routes_frames [OF incoming_pinging l(2) fb ba(2), of 0 nobody,
      THEN conjunct2, THEN conjunct1]
  have B: "readLoop_body wire nobody (pinging_sys0 ?b) = Some (True, set_incoming [] (pinging_sys0 ?b))"
    by (simp add: pending_pinging wire_def)
  from reader_routes_frames [OF incoming_pinging l(3) fc ba(3), of 0 nobody,
      THEN conjunct2, THEN conjunct2]
  have C: "map_option (ErrorLogger \<circ> snd) (readLoop_body wire nobody (pinging_sys0 ?c))
       = Some (Some [''server at addr 10.0.0.1:7000 sent a bad frame''])"
    by (simp add: wire_def raddr_pinging errorf_def set_incoming_def upd_client_def logger_pinging)
  from A B C show ?thesis by blast
qed

text \<open>
  C6 as stated fails for the logging: with the \<^verbatim>\<open>nil\<close> logger, which is the default, a
  frame of kind REQ is skipped and nothing is logged.
\<close>

theorem reader_bad_frame_not_logged_without_logger:
  "map_option fst (readLoop_body wire nobody (quiet_sys0 [0,0,0,0,0,0,0,1, 1, 0,0, 0])) = Some True
   \<and> map_option (ErrorLogger \<circ> snd)
       (readLoop_body wire nobody (quiet_sys0 [0,0,0,0,0,0,0,1, 1, 0,0, 0])) = Some None
   \<and> map_option (incoming \<circ> conn \<circ> cl \<circ> snd)
       (readLoop_body wire nobody (quiet_sys0 [0,0,0,0,0,0,0,1, 1, 0,0, 0])) = Some []"
proof -
  let ?c = "[0,0,0,0,0,0,0,1, 1, 0,0, 0] :: byte list"
  have i: "incoming (conn (cl (quiet_sys0 ?c))) = ?c"
    by (simp add: quiet_sys0_def sys0_def client0_def conn0_def)
  have l: "leadSize wire \<le> length ?c" by (simp add: wire_def)
  have f: "readFrame wire (take (leadSize wire) ?c) = (1, fREQ, 0)"
    by (simp add: wire_def wire_readFrame_def byte_kind_def be_nat_def)
  have b: "0 \<le> length (drop (leadSize wire) ?c)" by simp
  have "readLoop_body wire nobody (quiet_sys0 ?c) =
          Some (True, errorf (bad_frame_msg (quiet_sys0 ?c))
                        (set_incoming (drop (leadSize wire + 0) ?c) (quiet_sys0 ?c)))"
    by (rule reader_bad_kind [OF i l f b]) simp_all
  then show ?thesis
    by (simp add: errorf_def set_incoming_def upd_client_def quiet_sys0_def wire_def)
qed


section \<open>Closing the client\<close>

lemma closeError_not_open:
  "state (cl s) \<noteq> clientOpen \<Longrightarrow> closeError run e s = Some s"
  by (simp add: closeError_def cas_state_def)

lemma Close_not_open:
  "state (cl s) \<noteq> clientOpen \<Longrightarrow> Close run s = Some (Some ErrClosed, s)"
  by (simp add: Close_def cas_state_def)

lemma readLoop_body_stays_closed:
  assumes "readLoop_body F run s = Some (again, s')" and "state (cl s) \<noteq> clientOpen"
  shows "state (cl s') = state (cl s)"
proof (rule readLoop_body_keeps [OF assms(1)])
  show "\<And>c x. state (c\<lparr>conn := x\<rparr>) = state c" by simp
  show "\<And>c x. state (c\<lparr>pending := x\<rparr>) = state c" by simp
  show "\<And>x t t'. state (cl t) = state (cl s) \<Longrightarrow> closeError run x t = Some t' \<Longrightarrow>
          state (cl t') = state (cl t)"
  proof -
    fix x t t'
    assume a: "state (cl t) = state (cl s)" and b: "closeError run x t = Some t'"
    have "state (cl t) \<noteq> clientOpen" using a assms(2) by simp
    from closeError_not_open [OF this, of run x] b show "state (cl t') = state (cl t)" by simp
  qed
qed

lemma writeLoop_body_stays_closed:
  assumes "writeLoop_body nobody s = Some (again, s')" and "state (cl s) \<noteq> clientOpen"
  shows "state (cl s') = state (cl s)"
proof (rule writeLoop_body_keeps [OF assms(1)])
  show "\<And>c x. state (c\<lparr>conn := x\<rparr>) = state c" by simp
  show "\<And>c x. state (c\<lparr>writing := x\<rparr>) = state c" by simp
  show "\<And>x t t'. state (cl t) = state (cl s) \<Longrightarrow> closeError nobody x t = Some t' \<Longrightarrow>
          state (cl t') = state (cl t)"
  proof -
    fix x t t'
    assume a: "state (cl t) = state (cl s)" and b: "closeError nobody x t = Some t'"
    have "state (cl t) \<noteq> clientOpen" using a assms(2) by simp
    from closeError_not_open [OF this, of nobody x] b show "state (cl t') = state (cl t)" by simp
  qed
qed

lemma state_pending_reap: "state (cl (pending_reap s)) = state (cl s)"
proof -
  have "cl (fold (\<lambda>(k, w) t. if reap (heap s w)
                then sema_Wake w (upd_waiter w (\<lambda>x. x\<lparr>err := Some ErrTimeout\<rparr>) t)
                else upd_waiter w (\<lambda>x. x\<lparr>reap := True\<rparr>) t) (pending (cl s)) s) = cl s"
    by (rule cl_fold_waiters) (simp add: cl_sema_Wake cl_upd_waiter)
  then show ?thesis by (simp add: pending_reap_def upd_client_def)
qed

lemma writebody_state: "writebody nobody w sq s = Some s' \<Longrightarrow> state (cl s') = state (cl s)"
  by (auto simp: writebody_def pending_insert_def chan_send_def park_nobody state_defs
      split: if_splits)

lemma waiter_write_state:
  assumes "waiter_write M F nobody w meth inp s = Some (r, s')"
  shows "state (cl s') = state (cl s)"
  using assms
  by (auto simp: waiter_write_def state_defs Let_def
      split: if_splits prod.splits option.splits dest!: writebody_state)

lemma writeCommand_state:
  assumes "writeCommand F nobody w cmd msg s = Some (r, s')"
  shows "state (cl s') = state (cl s)"
  using assms
  by (auto simp: writeCommand_def state_defs Let_def
      split: if_splits prod.splits option.splits dest!: writebody_state)

lemma perform_stays_closed:
  assumes "perform M F ev s = Some s'" and "state (cl s) \<noteq> clientOpen"
  shows "state (cl s') = state (cl s)"
proof (cases ev)
  case (EvWrite w meth inp)
  then show ?thesis using assms by (auto dest: waiter_write_state)
next
  case (EvCommand w cmd msg)
  then show ?thesis using assms by (auto dest: writeCommand_state)
next
  case (EvResume w)
  then show ?thesis using assms
    by (auto simp: sema_Wait_def park_nobody state_defs split: if_splits)
next
  case EvReader
  then show ?thesis using assms by (auto dest: readLoop_body_stays_closed)
next
  case EvWriter
  then show ?thesis using assms by (auto dest: writeLoop_body_stays_closed)
next
  case EvTick
  then show ?thesis using assms by (auto simp: timeoutLoop_tick_def state_pending_reap)
next
  case EvClose
  then show ?thesis using assms by (auto simp: Close_not_open)
qed

lemma history_stays_closed:
  assumes "history M F evs s = Some s'" and "state (cl s) \<noteq> clientOpen"
  shows "state (cl s') = state (cl s)"
  using assms
proof (induction evs arbitrary: s)
  case Nil
  then show ?case by simp
next
  case (Cons ev evs)
  then obtain s1 where p: "perform M F ev s = Some s1" and h: "history M F evs s1 = Some s'"
    by (auto split: option.splits)
  from perform_stays_closed [OF p Cons.prems(2)] Cons.IH [OF h] Cons.prems(2)
  show ?case by simp
qed

lemma writeLoop_more_closed:
  assumes "writing_closed (cl s)"
  shows "\<exists>s'. writeLoop_more run buf s = Some (False, s')"
  using assms
proof (induction run buf s rule: writeLoop_more.induct)
  case (1 run buf s)
  obtain r s1 where cr: "chan_recv s = (r, s1)" by (cases "chan_recv s")
  have c1: "writing_closed (cl s1)"
    using cr "1.prems" by (auto simp: chan_recv_def upd_client_def split: list.splits)
  show ?case
  proof (cases r)
    case None
    then show ?thesis using cr c1
      by (subst writeLoop_more.simps) (auto split: prod.splits)
  next
    case (Some w)
    have bw: "bwr_Write buf (bytes (inb (heap s1 w))) = (buf @ bytes (inb (heap s1 w)), None)"
      by (simp add: bwr_Write_def)
    from "1.IH" [OF cr [symmetric] Some bw [symmetric] refl c1]
    obtain s' where "writeLoop_more run (buf @ bytes (inb (heap s1 w))) s1 = Some (False, s')"
      by blast
    then show ?thesis using cr Some bw by (subst writeLoop_more.simps) simp
  qed
qed

lemma writer_returns_when_closed:
  assumes "writing_closed (cl s)"
  shows "\<exists>s'. writeLoop_body run s = Some (False, s')"
proof -
  have pk: "park (\<lambda>t. writing (cl t) \<noteq> [] \<or> writing_closed (cl t)) run s = Some s"
    using assms by (simp add: park_def)
  obtain r s1 where cr: "chan_recv s = (r, s1)" by (cases "chan_recv s")
  have c1: "writing_closed (cl s1)"
    using cr assms by (auto simp: chan_recv_def upd_client_def split: list.splits)
  show ?thesis
  proof (cases r)
    case None
    then show ?thesis using pk cr by (simp add: writeLoop_body_def)
  next
    case (Some w)
    from writeLoop_more_closed [OF c1, of run "[] @ bytes (inb (heap s1 w))"]
    show ?thesis using pk cr Some by (simp add: writeLoop_body_def bwr_Write_def)
  qed
qed

lemma writer_parks_on_open_empty_channel:
  assumes "writing (cl s) = []" and "\<not> writing_closed (cl s)"
  shows "writeLoop_body nobody s = None"
  using assms by (simp add: writeLoop_body_def park_nobody)

lemma scavenger_goes_on_until_done:
  assumes "timeoutLoop_step s (again, t)" and "\<not> done_closed (cl s)"
  shows "again \<and> t = pending_reap s"
  using assms by (auto elim: timeoutLoop_step.cases)

lemma Close_open:
  assumes "state (cl s) = clientOpen"
  shows "Close run s =
           map_option (\<lambda>s2. conn_Close (close_writing (close_done s2)))
             (wg_Wait run (upd_client (\<lambda>c. c\<lparr>state := clientClosed\<rparr>) s))"
  using assms by (simp add: Close_def cas_state_def split: option.splits)

lemma wg_Wait_Some:
  assumes "wg_Wait run s = Some s2"
  shows "(s2 = s \<or> run s = Some s2) \<and> wg (cl s2) = 0"
  using assms by (auto simp: wg_Wait_def park_def split: if_splits option.splits)

lemma closing_effects:
  assumes "(r, s') = conn_Close (close_writing (close_done s2))"
  shows "done_closed (cl s') \<and> writing_closed (cl s') \<and> conn_closed (conn (cl s')) \<and>
         r = close_result (conn (cl s2)) \<and> pending (cl s') = pending (cl s2) \<and>
         heap s' = heap s2 \<and> wg (cl s') = wg (cl s2) \<and> state (cl s') = state (cl s2)"
  using assms by (simp add: conn_Close_def close_writing_def close_done_def upd_client_def)

text \<open>
  C4, as the code has it. \<^verbatim>\<open>Close\<close> and \<^verbatim>\<open>closeError\<close> race for the same
  compare-and-swap of the state. A \<^verbatim>\<open>Close\<close> that finds the client open closes the state
  and parks on \<^verbatim>\<open>wg.Wait()\<close> while the other goroutines go through a history of
  operations of the client. When it returns, it has gone on from a state in which no
  caller was outstanding (\<^verbatim>\<open>wg\<close> is 0); it has closed \<^verbatim>\<open>done\<close>, on which the
  scavenger returns, and \<^verbatim>\<open>writing\<close>, on which the writer returns once it has written
  what was queued, and then the transport, and returns what \<^verbatim>\<open>conn.Close()\<close> returned;
  it has touched neither the pending map nor a waiter. From then on, whatever the client
  goes through, every \<^verbatim>\<open>Close\<close> returns \<^verbatim>\<open>ErrClosed\<close> and changes nothing. A
  \<^verbatim>\<open>Close\<close> that finds the client not open, be it the first call of all, returns
  \<^verbatim>\<open>ErrClosed\<close> at once and changes nothing. (\<open>Close_waits\<close>: while a caller is
  outstanding a \<^verbatim>\<open>Close\<close> on an open client does not return.)
\<close>

theorem Close_allowed_once:
  "(state (cl s) = clientOpen \<longrightarrow> Close (history M F evs) s = Some (r, s') \<longrightarrow>
      (\<exists>s2. (s2 = upd_client (\<lambda>c. c\<lparr>state := clientClosed\<rparr>) s \<or>
               history M F evs (upd_client (\<lambda>c. c\<lparr>state := clientClosed\<rparr>) s) = Some s2) \<and>
              wg (cl s2) = 0 \<and>
              (r, s') = conn_Close (close_writing (close_done s2)) \<and>
              pending (cl s') = pending (cl s2) \<and> heap s' = heap s2 \<and>
              r = close_result (conn (cl s2)))
       \<and> done_closed (cl s') \<and> writing_closed (cl s') \<and> conn_closed (conn (cl s'))
       \<and> state (cl s') = clientClosed
       \<and> timeoutLoop_step s' (False, s')
       \<and> (\<exists>t. writeLoop_body wrun s' = Some (False, t))
       \<and> (\<forall>evs' s'' run'. history M F evs' s' = Some s'' \<longrightarrow>
             Close run' s'' = Some (Some ErrClosed, s'')))
   \<and> (state (cl s) \<noteq> clientOpen \<longrightarrow> Close run s = Some (Some ErrClosed, s))"
proof (rule conjI)
  show "state (cl s) \<noteq> clientOpen \<longrightarrow> Close run s = Some (Some ErrClosed, s)"
    by (simp add: Close_not_open)
next
  let ?s1 = "upd_client (\<lambda>c. c\<lparr>state := clientClosed\<rparr>) s"
  have s1: "state (cl ?s1) = clientClosed" by (simp add: upd_client_def)
  have ne: "clientClosed \<noteq> clientOpen" by (simp add: clientClosed_def clientOpen_def)
  {
    assume op: "state (cl s) = clientOpen" and c: "Close (history M F evs) s = Some (r, s')"
    from op c obtain s2 where w: "wg_Wait (history M F evs) ?s1 = Some s2"
      and rs: "(r, s') = conn_Close (close_writing (close_done s2))"
      by (auto simp: Close_open)
    note ws = wg_Wait_Some [OF w]
    have c2: "state (cl s2) = clientClosed"
    proof (cases "s2 = ?s1")
      case True
      then show ?thesis using s1 by simp
    next
      case False
      then have "history M F evs ?s1 = Some s2" using ws by simp
      from history_stays_closed [OF this] s1 ne show ?thesis by simp
    qed
    note ce = closing_effects [OF rs]
    have c': "state (cl s') = clientClosed" using ce c2 by simp
    have later: "\<forall>evs' s'' run'. history M F evs' s' = Some s'' \<longrightarrow>
               Close run' s'' = Some (Some ErrClosed, s'')"
    proof (intro allI impI)
      fix evs' s'' run'
      assume "history M F evs' s' = Some s''"
      from history_stays_closed [OF this] c' ne have "state (cl s'') \<noteq> clientOpen" by simp
      then show "Close run' s'' = Some (Some ErrClosed, s'')" by (rule Close_not_open)
    qed
    have sc: "timeoutLoop_step s' (False, s')" using ce by (simp add: on_done)
    have wr: "\<exists>t. writeLoop_body wrun s' = Some (False, t)"
      using ce by (simp add: writer_returns_when_closed)
    have "(\<exists>s2. (s2 = ?s1 \<or> history M F evs ?s1 = Some s2) \<and>
              wg (cl s2) = 0 \<and>
              (r, s') = conn_Close (close_writing (close_done s2)) \<and>
              pending (cl s') = pending (cl s2) \<and> heap s' = heap s2 \<and>
              r = close_result (conn (cl s2)))
       \<and> done_closed (cl s') \<and> writing_closed (cl s') \<and> conn_closed (conn (cl s'))
       \<and> state (cl s') = clientClosed
       \<and> timeoutLoop_step s' (False, s')
       \<and> (\<exists>t. writeLoop_body wrun s' = Some (False, t))
       \<and> (\<forall>evs' s'' run'. history M F evs' s' = Some s'' \<longrightarrow>
             Close run' s'' = Some (Some ErrClosed, s''))"
      using ws rs ce c' sc wr later by blast
  }
  then show "state (cl s) = clientOpen \<longrightarrow> Close (history M F evs) s = Some (r, s') \<longrightarrow>
      (\<exists>s2. (s2 = ?s1 \<or> history M F evs ?s1 = Some s2) \<and>
              wg (cl s2) = 0 \<and>
              (r, s') = conn_Close (close_writing (close_done s2)) \<and>
              pending (cl s') = pending (cl s2) \<and> heap s' = heap s2 \<and>
              r = close_result (conn (cl s2)))
       \<and> done_closed (cl s') \<and> writing_closed (cl s') \<and> conn_closed (conn (cl s'))
       \<and> state (cl s') = clientClosed
       \<and> timeoutLoop_step s' (False, s')
       \<and> (\<exists>t. writeLoop_body wrun s' = Some (False, t))
       \<and> (\<forall>evs' s'' run'. history M F evs' s' = Some s'' \<longrightarrow>
             Close run' s'' = Some (Some ErrClosed, s''))"
    by blast
qed

lemma wg_pinging: "wg (cl (pinging_sys0 bs)) = 1"
  by (simp add: pinging_sys0_def waiters_pop_def cmds_def clear_waiter_def eval_defs)

lemma state_pinging: "state (cl (pinging_sys0 bs)) = clientOpen"
  by (simp add: pinging_sys0_def waiters_pop_def cmds_def clear_waiter_def eval_defs)

lemma Close_waits:
  assumes "state (cl s) = clientOpen" and "wg (cl s) \<noteq> 0"
  shows "Close nobody s = None"
  using assms by (simp add: Close_open wg_Wait_def park_nobody upd_client_def)

lemmas reader_defs =
  pinging_sys0_def waiters_pop_def cmds_def clear_waiter_def
  Close_def cas_state_def wg_Wait_def park_def readLoop_body_def ReadFull_def Skip_def
  skip_body_def do_io_def set_incoming_def pending_remove_def wMap_remove_def sema_Wake_def
  sema_Wait_def nobody_def conn_Close_def close_writing_def close_done_def errorf_def
  bad_frame_msg_def closeError_def

theorem Close_allowed_once_witness:
  "state (cl (pinging_sys0 [0,0,0,0,0,0,0,1, 3, 0,1, 0, 1])) = clientOpen
   \<and> Close nobody (pinging_sys0 [0,0,0,0,0,0,0,1, 3, 0,1, 0, 1]) = None
   \<and> map_option fst (Close (history mp wire [EvReader, EvResume 0])
                       (pinging_sys0 [0,0,0,0,0,0,0,1, 3, 0,1, 0, 1])) = Some None
   \<and> map_option (done_closed \<circ> cl \<circ> snd) (Close (history mp wire [EvReader, EvResume 0])
                       (pinging_sys0 [0,0,0,0,0,0,0,1, 3, 0,1, 0, 1])) = Some True
   \<and> map_option (writing_closed \<circ> cl \<circ> snd) (Close (history mp wire [EvReader, EvResume 0])
                       (pinging_sys0 [0,0,0,0,0,0,0,1, 3, 0,1, 0, 1])) = Some True
   \<and> map_option (conn_closed \<circ> conn \<circ> cl \<circ> snd) (Close (history mp wire [EvReader, EvResume 0])
                       (pinging_sys0 [0,0,0,0,0,0,0,1, 3, 0,1, 0, 1])) = Some True
   \<and> Option.bind (map_option snd (Close (history mp wire [EvReader, EvResume 0])
                       (pinging_sys0 [0,0,0,0,0,0,0,1, 3, 0,1, 0, 1]))) (Close nobody)
       = map_option (Pair (Some ErrClosed)) (map_option snd
           (Close (history mp wire [EvReader, EvResume 0])
                       (pinging_sys0 [0,0,0,0,0,0,0,1, 3, 0,1, 0, 1])))
   \<and> state (cl (closed_sys0 [])) \<noteq> clientOpen
   \<and> Close nobody (closed_sys0 []) = Some (Some ErrClosed, closed_sys0 [])"
proof -
  let ?S = "pinging_sys0 [0,0,0,0,0,0,0,1, 3, 0,1, 0, 1]"
  let ?H = "history mp wire [EvReader, EvResume 0]"
  have op: "state (cl ?S) = clientOpen" by (rule state_pinging)
  have waits: "Close nobody ?S = None"
    by (rule Close_waits [OF op]) (simp add: wg_pinging)
  have r: "map_option fst (Close ?H ?S) = Some None"
    by (simp add: reader_defs eval_defs)
  then obtain s' where c: "Close ?H ?S = Some (None, s')" by auto
  from Close_allowed_once [where s = ?S and M = mp and F = wire
      and evs = "[EvReader, EvResume 0]" and r = None and s' = s'] op c
  have flags: "done_closed (cl s')" "writing_closed (cl s')" "conn_closed (conn (cl s'))"
    and later: "\<forall>evs' s'' run'. history mp wire evs' s' = Some s'' \<longrightarrow>
             Close run' s'' = Some (Some ErrClosed, s'')"
    by blast+
  have "history mp wire [] s' = Some s'" by simp
  with later have again: "Close nobody s' = Some (Some ErrClosed, s')" by blast
  have nop: "state (cl (closed_sys0 [])) \<noteq> clientOpen"
    by (simp add: closed_sys0_def clientOpen_def clientClosed_def)
  from Close_allowed_once [where s = "closed_sys0 []" and run = nobody] nop
  have shut: "Close nobody (closed_sys0 []) = Some (Some ErrClosed, closed_sys0 [])" by blast
  show ?thesis using op waits c flags again nop shut by simp
qed

text \<open>
  C4 as stated fails when a fatal error has closed the client: \<^verbatim>\<open>closeError\<close> wins the
  compare-and-swap that \<^verbatim>\<open>Close\<close> needs. On a new client whose server has closed the
  connection, the reader fails on the lead, \<^verbatim>\<open>closeError\<close> closes the client and the
  reader returns; the first call of \<^verbatim>\<open>Close\<close> then returns \<^verbatim>\<open>ErrClosed\<close> at once
  and changes nothing.
\<close>

theorem Close_first_call_after_fatal_error:
  "state (cl (sys0 [])) = clientOpen
   \<and> map_option fst (readLoop_body wire nobody (sys0 [])) = Some False
   \<and> map_option fst (Option.bind (map_option snd (readLoop_body wire nobody (sys0 [])))
                       (Close nobody)) = Some (Some ErrClosed)
   \<and> map_option snd (Option.bind (map_option snd (readLoop_body wire nobody (sys0 [])))
                       (Close nobody)) = map_option snd (readLoop_body wire nobody (sys0 []))"
  by (simp add: reader_defs eval_defs pending_flush_def flush_while_empty)


section \<open>Recycling of waiters\<close>



lemma waiters_pop_from_list:
  "free s = w # ws \<Longrightarrow> waiters_pop s = (w, upd_waiter w clear_waiter (s\<lparr>free := ws\<rparr>))"
  by (simp add: waiters_pop_def)



lemma sendCommand_pushes_after_reply:
  assumes "waiters_pop s = (w, s0)" and "writeCommand F run w cmd msg s0 = Some (None, s1)"
    and "sema_Wait run w s1 = Some s2" and "err (heap s2 w) = None"
    and "sendCommand F K run cmd msg s = Some (r, s')"
  shows "\<exists>s3. s' = waiters_push w s3"
  using assms by (auto simp: sendCommand_def Let_def state_defs split: if_splits)




section \<open>The cluster\<close>

lemma dial_one_step:
  assumes "i < length errs" and "errs ! i = None"
  shows "dial_one N (i, a) (c, errs) =
           ((case net_Dial N (nwk c) a of
               Inl e \<Rightarrow> c
             | Inr cn \<Rightarrow> c\<lparr>remotes := (remotes c)[i := raddr cn],
                            clients := clients c @ established N (nwk c) [a]\<rparr>),
            errs[i := failure (establish N (nwk c) a)])"
proof -
  have "errs[i := None] = errs" using assms by (metis list_update_id)
  then show ?thesis
    by (auto simp: dial_one_def handleDialError_def established_def establish_def failure_def
        Let_def split: sum.splits)
qed

lemma fold_dial_one:
  assumes "length ys \<le> m"
  shows "\<exists>c'. fold (dial_one N) (zip [0..<length ys] ys) (c, replicate m None) =
           (c', map (\<lambda>a. failure (establish N (nwk c) a)) ys @ replicate (m - length ys) None) \<and>
           clients c' = clients c @ established N (nwk c) ys \<and>
           nwk c' = nwk c \<and> cstate c' = cstate c \<and> length (remotes c') = length (remotes c)"
  using assms
proof (induction ys rule: rev_induct)
  case Nil
  then show ?case by (simp add: established_def)
next
  case (snoc y ys)
  then have le: "length ys \<le> m" and lt: "length ys < m" by simp_all
  from snoc.IH [OF le] obtain c1 where
    f: "fold (dial_one N) (zip [0..<length ys] ys) (c, replicate m None) =
           (c1, map (\<lambda>a. failure (establish N (nwk c) a)) ys @ replicate (m - length ys) None)"
    and cl1: "clients c1 = clients c @ established N (nwk c) ys"
    and n1: "nwk c1 = nwk c" and s1: "cstate c1 = cstate c"
    and r1: "length (remotes c1) = length (remotes c)"
    by blast
  let ?errs = "map (\<lambda>a. failure (establish N (nwk c) a)) ys @ replicate (m - length ys) None"
  have z: "zip [0..<length (ys @ [y])] (ys @ [y]) = zip [0..<length ys] ys @ [(length ys, y)]"
    by simp
  have il: "length ys < length ?errs" using lt by simp
  have nl: "?errs ! length ys = None" using lt by (simp add: nth_append)
  have upd: "?errs[length ys := failure (establish N (nwk c) y)] =
        map (\<lambda>a. failure (establish N (nwk c) a)) (ys @ [y]) @
        replicate (m - length (ys @ [y])) None"
  proof -
    have "m - length ys = Suc (m - length (ys @ [y]))" using lt by simp
    then show ?thesis by (simp add: list_update_append)
  qed
  have "fold (dial_one N) (zip [0..<length (ys @ [y])] (ys @ [y])) (c, replicate m None)
        = dial_one N (length ys, y) (c1, ?errs)"
    unfolding z by (simp add: f)
  also have "\<dots> = ((case net_Dial N (nwk c) y of
               Inl e \<Rightarrow> c1
             | Inr cn \<Rightarrow> c1\<lparr>remotes := (remotes c1)[length ys := raddr cn],
                            clients := clients c1 @ established N (nwk c) [y]\<rparr>),
            map (\<lambda>a. failure (establish N (nwk c) a)) (ys @ [y]) @
              replicate (m - length (ys @ [y])) None)"
    using dial_one_step [OF il nl, of N y c1] by (simp only: n1 upd)
  finally have step: "fold (dial_one N) (zip [0..<length (ys @ [y])] (ys @ [y])) (c, replicate m None)
      = ((case net_Dial N (nwk c) y of
               Inl e \<Rightarrow> c1
             | Inr cn \<Rightarrow> c1\<lparr>remotes := (remotes c1)[length ys := raddr cn],
                            clients := clients c1 @ established N (nwk c) [y]\<rparr>),
            map (\<lambda>a. failure (establish N (nwk c) a)) (ys @ [y]) @
              replicate (m - length (ys @ [y])) None)" .
  have e0: "\<And>e. net_Dial N (nwk c) y = Inl e \<Longrightarrow> established N (nwk c) [y] = []"
    by (simp add: established_def establish_def)
  have app: "established N (nwk c) (ys @ [y]) = established N (nwk c) ys @ established N (nwk c) [y]"
    by (simp add: established_def)
  show ?case
    unfolding step
    by (cases "net_Dial N (nwk c) y") (auto simp: cl1 n1 s1 r1 e0 app)
qed


lemma scan_fold_any:
  "fst (fold (\<lambda>(i, e) (any, first).
             if e = None \<and> \<not> any then (True, first)
             else if first = - 1 \<and> e \<noteq> None then (any, int i)
             else (any, first)) (zip [k..<k + length es] es) (any0, first0))
   = (any0 \<or> None \<in> set es)"
proof (induction es arbitrary: k any0 first0)
  case Nil
  then show ?case by simp
next
  case (Cons e es)
  have z: "zip [k..<k + length (e # es)] (e # es) = (k, e) # zip [Suc k..<Suc k + length es] es"
    by (simp add: upt_rec)
  show ?case unfolding z using Cons.IH [of "Suc k"] by (auto split: if_splits)
qed

lemma scan_fold_first:
  fixes es :: "error option list"
  assumes "None \<notin> set es" and "es \<noteq> []"
  shows "fold (\<lambda>(i, e) (any, first).
             if e = None \<and> \<not> any then (True, first)
             else if first = - 1 \<and> e \<noteq> None then (any, int i)
             else (any, first)) (zip [k..<k + length es] es) (False, - 1)
         = (False, int k)"
proof -
  have keep: "\<And>k j. None \<notin> set es \<Longrightarrow>
     fold (\<lambda>(i, e) (any, first).
             if e = None \<and> \<not> any then (True, first)
             else if first = - 1 \<and> e \<noteq> None then (any, int i)
             else (any, first)) (zip [k..<k + length es] es) (False, int j) = (False, int j)" for es :: "error option list"
  proof (induction es)
    case Nil
    then show ?case by simp
  next
    case (Cons e es)
    have z: "zip [k..<k + length (e # es)] (e # es) = (k, e) # zip [Suc k..<Suc k + length es] es"
      by (simp add: upt_rec)
    from Cons.prems obtain y where e: "e = Some y" and r: "None \<notin> set es"
      by (cases e) auto
    show ?case unfolding z using Cons.IH [OF r, of "Suc k" j] by (simp add: e)
  qed
  obtain e es' where es: "es = e # es'" using assms(2) by (cases es) auto
  have z: "zip [k..<k + length es] es = (k, e) # zip [Suc k..<Suc k + length es'] es'"
    by (simp add: es upt_rec)
  from assms(1) es obtain y where e: "e = Some y" and r: "None \<notin> set es'"
    by (cases e) auto
  show ?thesis unfolding z using keep [OF r, of "Suc k" k] by (simp add: e)
qed

lemma scan_errs_any: "fst (scan_errs errs) = (None \<in> set errs)"
  using scan_fold_any [of 0 errs False "- 1"] by (simp add: scan_errs_def)

lemma scan_errs_all_failed:
  assumes "None \<notin> set errs" and "errs \<noteq> []"
  shows "scan_errs errs = (False, 0)"
  using scan_fold_first [OF assms, of 0] by (simp add: scan_errs_def)

lemma dialAll_fresh:
  assumes "clients c = []" and "remotes c \<noteq> []"
  shows "\<exists>c'. clients c' = established N (nwk c) (remotes c) \<and>
            nwk c' = nwk c \<and> cstate c' = cstate c \<and> length (remotes c') = length (remotes c) \<and>
            ((\<exists>a \<in> set (remotes c). failure (establish N (nwk c) a) = None) \<longrightarrow>
               dialAll N c = Some (None, c')) \<and>
            ((\<forall>a \<in> set (remotes c). failure (establish N (nwk c) a) \<noteq> None) \<longrightarrow>
               dialAll N c = Some (failure (establish N (nwk c) (hd (remotes c))), c'))"
proof -
  let ?f = "\<lambda>a. failure (establish N (nwk c) a)"
  from fold_dial_one [of "remotes c" "length (remotes c)" N c]
  obtain c' where f: "fold (dial_one N) (zip [0..<length (remotes c)] (remotes c))
                        (c, replicate (length (remotes c)) None) = (c', map ?f (remotes c))"
    and rest: "clients c' = clients c @ established N (nwk c) (remotes c)"
      "nwk c' = nwk c" "cstate c' = cstate c" "length (remotes c') = length (remotes c)"
    by auto
  have any: "fst (scan_errs (map ?f (remotes c))) = (\<exists>a \<in> set (remotes c). ?f a = None)"
    unfolding scan_errs_any by (metis (mono_tags, lifting) image_iff list.set_map)
  have one: "dialAll N c = Some (None, c')" if "\<exists>a \<in> set (remotes c). ?f a = None"
  proof -
    obtain an fi where sc: "scan_errs (map ?f (remotes c)) = (an, fi)"
      by (cases "scan_errs (map ?f (remotes c))")
    have "fst (scan_errs (map ?f (remotes c)))" using any that by simp
    then have an by (simp add: sc)
    then show ?thesis using assms f sc by (simp add: dialAll_def)
  qed
  have none: "dialAll N c = Some (?f (hd (remotes c)), c')"
    if "\<forall>a \<in> set (remotes c). ?f a \<noteq> None"
  proof -
    have "None \<notin> set (map ?f (remotes c))" using that by (metis any scan_errs_any)
    moreover have "map ?f (remotes c) \<noteq> []" using assms(2) by simp
    ultimately have sc: "scan_errs (map ?f (remotes c)) = (False, 0)"
      by (rule scan_errs_all_failed)
    have "map ?f (remotes c) ! 0 = ?f (hd (remotes c))"
      using assms(2) by (cases "remotes c") auto
    then show ?thesis using assms f sc by (simp add: dialAll_def)
  qed
  have "clients c' = established N (nwk c) (remotes c)" using rest(1) assms(1) by simp
  then show ?thesis using rest one none by blast
qed

text \<open>
  C7. \<^verbatim>\<open>DialCluster\<close> without an address returns \<^verbatim>\<open>ErrNoClients\<close>. With addresses it
  goes through every one of them (\<^verbatim>\<open>dialAll\<close> starts a goroutine for each; the clients
  of the cluster are those of all the addresses that connect): when at least one
  connection is established, handshake included, it returns the cluster; when every one
  fails, it returns the error of the first address; and it returns an error in no other
  case.
\<close>

theorem DialCluster_needs_one_connection:
  "DialCluster N nw [] = Some (Inl ErrNoClients)
   \<and> (addrs \<noteq> [] \<longrightarrow> (\<exists>a \<in> set addrs. failure (establish N nw a) = None) \<longrightarrow>
        (\<exists>c. DialCluster N nw addrs = Some (Inr c) \<and>
             clients c = established N nw addrs \<and> clients c \<noteq> []))
   \<and> (addrs \<noteq> [] \<longrightarrow> (\<forall>a \<in> set addrs. failure (establish N nw a) \<noteq> None) \<longrightarrow>
        (\<exists>e. establish N nw (hd addrs) = Inl e \<and> DialCluster N nw addrs = Some (Inl e)))
   \<and> (DialCluster N nw addrs = Some (Inl x) \<longrightarrow>
        addrs = [] \<or> (\<forall>a \<in> set addrs. failure (establish N nw a) \<noteq> None))"
proof -
  let ?c = "\<lparr>idx = 0, cstate = 2, clients = [], nwk = nw, remotes = addrs, cdone = False\<rparr>"
  have empty: "DialCluster N nw [] = Some (Inl ErrNoClients)" by (simp add: DialCluster_def)
  have ne: "established N nw addrs \<noteq> []" if "a \<in> set addrs" "failure (establish N nw a) = None" for a
  proof -
    from that(2) obtain n where "establish N nw a = Inr n"
      by (cases "establish N nw a") (auto simp: failure_def)
    then have "n \<in> set (established N nw addrs)"
      using that(1) by (force simp: established_def)
    then show ?thesis by auto
  qed
  have one: "\<exists>c. DialCluster N nw addrs = Some (Inr c) \<and>
             clients c = established N nw addrs \<and> clients c \<noteq> []"
    if a: "addrs \<noteq> []" and ex: "\<exists>a \<in> set addrs. failure (establish N nw a) = None"
  proof -
    from dialAll_fresh [of ?c N] a ex obtain c' where
      "clients c' = established N nw addrs" "dialAll N ?c = Some (None, c')" by auto
    then show ?thesis using a ex ne by (auto simp: DialCluster_def)
  qed
  have none: "\<exists>e. establish N nw (hd addrs) = Inl e \<and> DialCluster N nw addrs = Some (Inl e)"
    if a: "addrs \<noteq> []" and all: "\<forall>a \<in> set addrs. failure (establish N nw a) \<noteq> None"
  proof -
    from dialAll_fresh [of ?c N] a all obtain c' where
      d: "dialAll N ?c = Some (failure (establish N nw (hd addrs)), c')" by auto
    have "hd addrs \<in> set addrs" using a by simp
    with all obtain e where e: "establish N nw (hd addrs) = Inl e"
      by (cases "establish N nw (hd addrs)") (auto simp: failure_def)
    then have "DialCluster N nw addrs = Some (Inl e)"
      using a d by (simp add: DialCluster_def failure_def)
    with e show ?thesis by blast
  qed
  have only: "DialCluster N nw addrs = Some (Inl x) \<longrightarrow>
        addrs = [] \<or> (\<forall>a \<in> set addrs. failure (establish N nw a) \<noteq> None)"
    using one by fastforce
  show ?thesis using empty one none only by blast
qed

lemmas net_defs = net_up_def net_down_def net_b_only_def conn_to_def refused_def client_to_def
  establish_def failure_def established_def NewClient_def

theorem DialCluster_needs_one_connection_witness:
  "DialCluster net_up ''tcp'' [] = Some (Inl ErrNoClients)
   \<and> map_option (map_sum id clients) (DialCluster net_b_only ''tcp'' [''a'', ''b'', ''c''])
       = Some (Inr [client_to ''tcp'' ''b''])
   \<and> DialCluster net_down ''tcp'' [''a'', ''b''] = Some (Inl (refused ''a''))"
proof -
  note t = DialCluster_needs_one_connection
  have e: "DialCluster net_up ''tcp'' [] = Some (Inl ErrNoClients)"
    using t [of net_up "''tcp''"] by blast
  have "\<exists>a \<in> set [''a'', ''b'', ''c'']. failure (establish net_b_only ''tcp'' a) = None"
    by (simp add: net_defs)
  with t [of net_b_only "''tcp''" "[''a'', ''b'', ''c'']"]
  obtain c where "DialCluster net_b_only ''tcp'' [''a'', ''b'', ''c''] = Some (Inr c)"
    and "clients c = established net_b_only ''tcp'' [''a'', ''b'', ''c'']" by auto
  then have one: "map_option (map_sum id clients)
      (DialCluster net_b_only ''tcp'' [''a'', ''b'', ''c'']) = Some (Inr [client_to ''tcp'' ''b''])"
    by (simp add: net_defs)
  have "\<forall>a \<in> set [''a'', ''b'']. failure (establish net_down ''tcp'' a) \<noteq> None"
    by (simp add: net_defs)
  with t [of net_down "''tcp''" "[''a'', ''b'']"]
  obtain x where "establish net_down ''tcp'' (hd [''a'', ''b'']) = Inl x"
    and "DialCluster net_down ''tcp'' [''a'', ''b''] = Some (Inl x)" by auto
  then have none: "DialCluster net_down ''tcp'' [''a'', ''b''] = Some (Inl (refused ''a''))"
    by (simp add: net_defs)
  from e one none show ?thesis by simp
qed

subsection \<open>\<^verbatim>\<open>Status\<close>\<close>

lemma Status_fields:
  "Network (Status c) = nwk c"
  "Connected (Status c) = map (\<lambda>n. raddr (conn n)) (clients c)"
  "Disconnected (Status c) =
     filter (\<lambda>rem. rem \<notin> set (map (\<lambda>n. raddr (conn n)) (clients c))) (remotes c)"
  by (simp_all add: Status_def Let_def list_ex_iff)

lemma length_filter_split:
  "length (filter P xs) + length (filter (\<lambda>x. \<not> P x) xs) = length xs"
  by (induction xs) auto

lemma length_filter_mem:
  assumes "distinct xs" and "distinct ys" and "set ys \<subseteq> set xs"
  shows "length (filter (\<lambda>x. x \<in> set ys) xs) = length ys"
proof -
  have "distinct (filter (\<lambda>x. x \<in> set ys) xs)" using assms(1) by simp
  then have "length (filter (\<lambda>x. x \<in> set ys) xs) = card (set (filter (\<lambda>x. x \<in> set ys) xs))"
    by (rule distinct_card [symmetric])
  also have "set (filter (\<lambda>x. x \<in> set ys) xs) = set ys" using assms(3) by auto
  also have "card (set ys) = length ys" using assms(2) by (simp add: distinct_card)
  finally show ?thesis .
qed

text \<open>
  C8, as the code has it. \<^verbatim>\<open>Connected\<close> lists the remote address of every live client,
  one entry for a client, and \<^verbatim>\<open>Disconnected\<close> lists the stored remotes that are equal
  to none of them. So \<open>|Connected| = |clients|\<close>, and \<open>|Disconnected|\<close> plus the number
  of stored remotes that match a connected address is \<open>|remotes|\<close>. The sum
  \<open>|Connected| + |Disconnected|\<close> is \<open>|remotes|\<close> when no remote is stored twice, no two
  clients have the same address and the address of every client is a stored remote.
\<close>

theorem Status_counts:
  "Connected (Status c) = map (\<lambda>n. raddr (conn n)) (clients c)
   \<and> Disconnected (Status c) = filter (\<lambda>rem. rem \<notin> set (Connected (Status c))) (remotes c)
   \<and> length (Connected (Status c)) = length (clients c)
   \<and> length (Disconnected (Status c)) +
       length (filter (\<lambda>rem. rem \<in> set (Connected (Status c))) (remotes c)) = length (remotes c)
   \<and> (distinct (remotes c) \<and> distinct (Connected (Status c)) \<and>
        set (Connected (Status c)) \<subseteq> set (remotes c) \<longrightarrow>
        length (Connected (Status c)) + length (Disconnected (Status c)) = length (remotes c))"
proof -
  let ?C = "Connected (Status c)"
  have d: "Disconnected (Status c) = filter (\<lambda>rem. rem \<notin> set ?C) (remotes c)"
    by (simp add: Status_fields)
  have sum: "length (Disconnected (Status c)) +
       length (filter (\<lambda>rem. rem \<in> set ?C) (remotes c)) = length (remotes c)"
    unfolding d using length_filter_split [of "\<lambda>rem. rem \<in> set ?C" "remotes c"] by simp
  have "length ?C + length (Disconnected (Status c)) = length (remotes c)"
    if "distinct (remotes c)" "distinct ?C" "set ?C \<subseteq> set (remotes c)"
    using sum length_filter_mem [OF that] by simp
  then show ?thesis using d sum by (simp add: Status_fields(2))
qed

lemmas cluster_eval = DialCluster_def dialAll_def dial_one_def scan_errs_def handleDialError_def
  Add_def dial_def cluster_add_def cluster_a_def cluster_abc_def Status_def upt_rec Let_def

lemma DialCluster_abc: "DialCluster net_b_only ''tcp'' [''a'', ''b'', ''c''] = Some (Inr cluster_abc)"
  by (simp add: cluster_eval net_defs)

theorem Status_counts_witness:
  "DialCluster net_b_only ''tcp'' [''a'', ''b'', ''c''] = Some (Inr cluster_abc)
   \<and> Status cluster_abc
       = \<lparr>Network = ''tcp'', Connected = [''b''], Disconnected = [''a'', ''c'']\<rparr>
   \<and> length (Connected (Status cluster_abc)) + length (Disconnected (Status cluster_abc))
       = length (remotes cluster_abc)"
proof -
  have st: "Status cluster_abc
       = \<lparr>Network = ''tcp'', Connected = [''b''], Disconnected = [''a'', ''c'']\<rparr>"
    by (simp add: cluster_eval net_defs)
  have h: "distinct (remotes cluster_abc) \<and> distinct (Connected (Status cluster_abc)) \<and>
        set (Connected (Status cluster_abc)) \<subseteq> set (remotes cluster_abc)"
    unfolding st by (simp add: cluster_abc_def)
  from Status_counts [of cluster_abc] h
  have "length (Connected (Status cluster_abc)) + length (Disconnected (Status cluster_abc))
       = length (remotes cluster_abc)" by blast
  then show ?thesis using DialCluster_abc st by simp
qed

text \<open>
  C8 as stated fails when two clients are connected to one remote: after
  \<^verbatim>\<open>DialCluster("tcp", "a")\<close> and \<^verbatim>\<open>Add("a")\<close> on a network where \<open>a\<close> answers, the
  cluster has two clients and the one remote \<open>a\<close> (\<^verbatim>\<open>dial\<close> finds it in the list and
  does not store it again), and \<^verbatim>\<open>Status\<close> has two connected and no disconnected
  addresses.
\<close>

theorem Status_counts_two_clients_one_remote:
  "DialCluster net_up ''tcp'' [''a''] = Some (Inr cluster_a)
   \<and> fst (Add net_up ''a'' cluster_a) = None
   \<and> remotes (snd (Add net_up ''a'' cluster_a)) = [''a'']
   \<and> Status (snd (Add net_up ''a'' cluster_a))
       = \<lparr>Network = ''tcp'', Connected = [''a'', ''a''], Disconnected = []\<rparr>
   \<and> length (Connected (Status (snd (Add net_up ''a'' cluster_a)))) +
       length (Disconnected (Status (snd (Add net_up ''a'' cluster_a))))
       \<noteq> length (remotes (snd (Add net_up ''a'' cluster_a)))"
  by (simp add: cluster_eval net_defs)

subsection \<open>The timeout of the clients of a cluster\<close>

lemma NewClient_period: "NewClient N cn t = Inr n \<Longrightarrow> period n = t"
  by (auto simp: NewClient_def Let_def split: option.splits)

lemma establish_period: "establish N nw a = Inr n \<Longrightarrow> period n = 1000"
  by (cases "net_Dial N nw a") (auto simp: establish_def dest: NewClient_period)

lemma established_period:
  assumes "n \<in> set (established N nw addrs)"
  shows "period n = 1000"
proof -
  from assms obtain a where "establish N nw a = Inr n"
    by (auto simp: established_def split: sum.splits)
  then show ?thesis by (rule establish_period)
qed

lemma dial_period:
  assumes "\<forall>n \<in> set (clients c). period n = 1000" and "dial N inet addr ex c = (r, c')"
  shows "\<forall>n \<in> set (clients c'). period n = 1000"
proof (cases "net_Dial N inet addr")
  case (Inl e)
  then have "c' = c" using assms(2) by (simp add: dial_def)
  then show ?thesis using assms(1) by simp
next
  case (Inr cn)
  define c1 where "c1 = (if \<not> ex
                     then (if list_ex (\<lambda>rem. rem = raddr cn) (remotes c) then c
                           else c\<lparr>remotes := remotes c @ [raddr cn]\<rparr>)
                     else c)"
  have k1: "clients c1 = clients c" by (simp add: c1_def)
  show ?thesis
  proof (cases "NewClient N cn 1000")
    case (Inl e)
    then have "c' = c1" using assms(2) Inr by (simp add: dial_def c1_def)
    then show ?thesis using assms(1) k1 by simp
  next
    case new: (Inr n)
    then have "c' = cluster_add n c1" using assms(2) Inr by (simp add: dial_def c1_def)
    then have "clients c' = clients c @ [n]" by (simp add: cluster_add_def k1)
    then show ?thesis using assms(1) NewClient_period [OF new] by simp
  qed
qed

lemma dialAll_period:
  assumes "\<forall>n \<in> set (clients c). period n = 1000" and "dialAll N c = Some (r, c')"
  shows "\<forall>n \<in> set (clients c'). period n = 1000"
proof (cases "clients c = [] \<and> remotes c \<noteq> []")
  case False
  then have "dialAll N c = Some (None, c) \<or> dialAll N c = Some (Some ErrNoClients, c)"
    by (cases "clients c") (simp_all add: dialAll_def)
  then have "c' = c" using assms(2) by auto
  then show ?thesis using assms(1) by simp
next
  case True
  from dialAll_fresh [of c N] True obtain c1 where
    cl: "clients c1 = established N (nwk c) (remotes c)"
    and one: "(\<exists>a \<in> set (remotes c). failure (establish N (nwk c) a) = None) \<longrightarrow>
               dialAll N c = Some (None, c1)"
    and none: "(\<forall>a \<in> set (remotes c). failure (establish N (nwk c) a) \<noteq> None) \<longrightarrow>
               dialAll N c = Some (failure (establish N (nwk c) (hd (remotes c))), c1)"
    by blast
  have "c' = c1"
  proof (cases "\<exists>a \<in> set (remotes c). failure (establish N (nwk c) a) = None")
    case True
    with one assms(2) show ?thesis by simp
  next
    case False
    with none assms(2) show ?thesis by simp
  qed
  then show ?thesis using cl established_period by metis
qed

lemma DialCluster_period:
  assumes "DialCluster N nw addrs = Some (Inr c)"
  shows "\<forall>n \<in> set (clients c). period n = 1000"
proof -
  let ?c = "\<lparr>idx = 0, cstate = 2, clients = [], nwk = nw, remotes = addrs, cdone = False\<rparr>"
  have ne: "\<not> length addrs < 1" using assms by (auto simp: DialCluster_def)
  obtain r c' where d: "dialAll N ?c = Some (r, c')"
    using assms ne by (cases "dialAll N ?c") (auto simp: DialCluster_def)
  have "r = None \<and> c' = c"
    using assms ne d by (cases r) (simp_all add: DialCluster_def)
  then have "dialAll N ?c = Some (None, c)" using d by simp
  from dialAll_period [OF _ this] show ?thesis by simp
qed

text \<open>
  C9. \<^verbatim>\<open>dialAll\<close> and \<^verbatim>\<open>dial\<close> call \<^verbatim>\<open>NewClient(conn, 1000)\<close>, and neither
  \<^verbatim>\<open>DialCluster\<close> nor \<^verbatim>\<open>Add\<close> takes a timeout from its caller: every client of a
  cluster has the scavenger period 1000, which as a \<^verbatim>\<open>time.Duration\<close> is 1000
  nanoseconds and not the 1000 milliseconds of the comment on \<^verbatim>\<open>NewClient\<close>. The
  clients of a fresh cluster have it, and \<^verbatim>\<open>dialAll\<close> and \<^verbatim>\<open>dial\<close> keep it.
\<close>

theorem cluster_clients_tick_every_1000_nanoseconds:
  "(DialCluster N nw addrs = Some (Inr c) \<longrightarrow>
      (\<forall>n \<in> set (clients c). period n = 1000 * Nanosecond \<and> period n \<noteq> 1000 * Millisecond))
   \<and> ((\<forall>n \<in> set (clients c0). period n = 1000) \<longrightarrow> dialAll N c0 = Some (r, c1) \<longrightarrow>
      (\<forall>n \<in> set (clients c1). period n = 1000))
   \<and> ((\<forall>n \<in> set (clients c0). period n = 1000) \<longrightarrow> dial N inet addr ex c0 = (r', c2) \<longrightarrow>
      (\<forall>n \<in> set (clients c2). period n = 1000))
   \<and> (\<forall>n \<in> set (established N nw addrs). period n = 1000)"
proof (intro conjI impI ballI)
  fix n
  assume "DialCluster N nw addrs = Some (Inr c)" and "n \<in> set (clients c)"
  then have p: "period n = 1000" using DialCluster_period by blast
  show "period n = 1000 * Nanosecond" using p by (simp add: Nanosecond_def)
  show "period n \<noteq> 1000 * Millisecond" using p by (simp add: Millisecond_def Nanosecond_def)
next
  fix n
  assume "\<forall>n \<in> set (clients c0). period n = 1000" and "dialAll N c0 = Some (r, c1)"
    and "n \<in> set (clients c1)"
  then show "period n = 1000" using dialAll_period by blast
next
  fix n
  assume "\<forall>n \<in> set (clients c0). period n = 1000" and "dial N inet addr ex c0 = (r', c2)"
    and "n \<in> set (clients c2)"
  then show "period n = 1000" using dial_period by blast
next
  fix n
  assume "n \<in> set (established N nw addrs)"
  then show "period n = 1000" by (rule established_period)
qed

theorem cluster_clients_tick_every_1000_nanoseconds_witness:
  "DialCluster net_b_only ''tcp'' [''a'', ''b'', ''c''] = Some (Inr cluster_abc)
   \<and> map period (clients cluster_abc) = [1000 * Nanosecond]
   \<and> period (client_to ''tcp'' ''b'') \<noteq> 1000 * Millisecond
   \<and> dial net_up ''tcp'' ''a'' False cluster_a = (None, snd (Add net_up ''a'' cluster_a))
   \<and> map period (clients (snd (Add net_up ''a'' cluster_a))) = [1000, 1000]
   \<and> map period (established net_up ''tcp'' [''a'', ''b'']) = [1000, 1000]"
proof -
  note t = cluster_clients_tick_every_1000_nanoseconds
  have cs: "clients cluster_abc = [client_to ''tcp'' ''b'']" by (simp add: cluster_abc_def)
  from t [of net_b_only "''tcp''" "[''a'', ''b'', ''c'']" cluster_abc] DialCluster_abc
  have "\<forall>n \<in> set (clients cluster_abc).
          period n = 1000 * Nanosecond \<and> period n \<noteq> 1000 * Millisecond" by blast
  then have a: "period (client_to ''tcp'' ''b'') = 1000 * Nanosecond"
    "period (client_to ''tcp'' ''b'') \<noteq> 1000 * Millisecond" by (simp_all add: cs)
  have d: "dial net_up ''tcp'' ''a'' False cluster_a = (None, snd (Add net_up ''a'' cluster_a))"
    by (simp add: cluster_eval net_defs)
  have c0: "\<forall>n \<in> set (clients cluster_a). period n = 1000"
    by (simp add: cluster_a_def client_to_def)
  have cl2: "clients (snd (Add net_up ''a'' cluster_a))
               = [client_to ''tcp'' ''a'', client_to ''tcp'' ''a'']"
    by (simp add: cluster_eval net_defs)
  from t [where N = net_up and ?c0.0 = cluster_a and inet = "''tcp''" and addr = "''a''"
      and ex = False and r' = None and ?c2.0 = "snd (Add net_up ''a'' cluster_a)"] c0 d
  have "\<forall>n \<in> set (clients (snd (Add net_up ''a'' cluster_a))). period n = 1000" by blast
  then have b: "map period (clients (snd (Add net_up ''a'' cluster_a))) = [1000, 1000]"
    by (simp add: cl2)
  have e: "map period (established net_up ''tcp'' [''a'', ''b'']) = [1000, 1000]"
    by (simp add: net_defs)
  show ?thesis using DialCluster_abc a cs d b e by simp
qed


end
